theory Spec2Isabelle
  imports Complex_Main "HOL-Library.Sublist" "HOL-Library.Product_Lexorder"
begin

section \<open>Texts\<close>

text \<open>
  A Python \<open>str\<close> is modelled as a \<open>string\<close>, one \<open>char\<close> for each character
  (code points below 256). The only wider character that the analysed functions produce is
  the minute mark U+BD84 of \<open>calculate_duration\<close>; it is written as its three UTF-8 bytes.
\<close>

text \<open>\<open>s.startswith(p)\<close>, \<open>s.endswith(p)\<close> and \<open>p in s\<close>.\<close>

definition startswith :: "string \<Rightarrow> string \<Rightarrow> bool" where
  "startswith s p = prefix p s"

definition endswith :: "string \<Rightarrow> string \<Rightarrow> bool" where
  "endswith s p = suffix p s"

definition contains :: "string \<Rightarrow> string \<Rightarrow> bool" where
  "contains s p = sublist p s"

text \<open>
  \<open>s.lower()\<close>: the capital letters \<open>A\<close> to \<open>Z\<close> and, above ASCII, the capital letters
  U+00C0 to U+00DE (the multiplication sign U+00D7 is not a letter) move to their small
  forms, 32 code points up.
\<close>

definition lower_char :: "char \<Rightarrow> char" where
  "lower_char c =
     (let n = (of_char c :: nat)
      in if (65 \<le> n \<and> n \<le> 90) \<or> (192 \<le> n \<and> n \<le> 222 \<and> n \<noteq> 215)
         then char_of (n + 32) else c)"

definition lower :: "string \<Rightarrow> string" where
  "lower s = map lower_char s"

text \<open>\<open>str(n)\<close> for an integer: decimal digits, with a minus sign below zero.\<close>

definition digit_char :: "nat \<Rightarrow> char" where
  "digit_char d = ''0123456789'' ! d"

fun str_nat :: "nat \<Rightarrow> string" where
  "str_nat n = (if n < 10 then [digit_char n]
                else str_nat (n div 10) @ [digit_char (n mod 10)])"

declare str_nat.simps [simp del]

definition str_int :: "int \<Rightarrow> string" where
  "str_int i = (if i < 0 then CHR ''-'' # str_nat (nat (- i)) else str_nat (nat i))"

definition minute_mark :: string where
  "minute_mark = [CHR 0xEB, CHR 0xB6, CHR 0x84]"

definition is_digit :: "char \<Rightarrow> bool" where
  "is_digit c = (48 \<le> (of_char c :: nat) \<and> (of_char c :: nat) \<le> 57)"

definition digit_val :: "char \<Rightarrow> int" where
  "digit_val c = int (of_char c) - 48"

text \<open>\<open>int(ds)\<close> for a run of decimal digits.\<close>

definition int_of_digits :: "string \<Rightarrow> int" where
  "int_of_digits ds = foldl (\<lambda>n c. 10 * n + digit_val c) 0 ds"

section \<open>Numbers\<close>

text \<open>The integer nearest to \<open>y\<close>, a tie going to the even neighbour.\<close>

definition round_half_even :: "real \<Rightarrow> int" where
  "round_half_even y =
     (let f = \<lfloor>y\<rfloor>; d = y - of_int f
      in if d < 1/2 then f else if 1/2 < d then f + 1 else if even f then f else f + 1)"

text \<open>\<open>round(x, 2)\<close> of Python: to two decimals, a tie going to the even neighbour. The
  argument is a real number here, not a 64-bit float.\<close>

definition round2 :: "real \<Rightarrow> real" where
  "round2 x = of_int (round_half_even (x * 100)) / 100"

text \<open>
  A \<open>float\<close> of Python and a \<open>float64\<close> of numpy is a real number with a significand of
  53 bits. \<open>fl64 x\<close> is the float that an operation with the exact result \<open>x\<close> returns:
  \<open>x\<close> is scaled by a power of two \<open>2 ^ e\<close> so that its magnitude lies between \<open>2 ^ 52\<close>
  and \<open>2 ^ 53\<close>, rounded to the nearest integer (a tie to the even one) and scaled back.
  The exponent is not bounded: overflow to infinity and the subnormal numbers below
  \<open>2 ^ -1022\<close> are not part of the model, and neither is NaN.
\<close>

definition fl64 :: "real \<Rightarrow> real" where
  "fl64 x =
     (if x = 0 then 0
      else (let e = \<lfloor>log 2 \<bar>x\<bar>\<rfloor> - 52
            in of_int (round_half_even (x / 2 powr of_int e)) * 2 powr of_int e))"

section \<open>git_analyzer: the provisional grade\<close>

text \<open>\<open>calculate_result(count)\<close>, an \<open>if\<close>/\<open>elif\<close>/\<open>else\<close> chain over the commit count.\<close>

definition calculate_result :: "int \<Rightarrow> string" where
  "calculate_result count =
     (if count = 1 then ''fail''
      else if 2 \<le> count \<and> count < 5 then ''warning''
      else ''success'')"

section \<open>git_analyzer: the repository resolver\<close>

text \<open>
  The exceptions that the analysed functions raise. An exception's message is not kept as
  a text; the constructor carries what the message is built from: owner and repository
  name for \<open>RepoNotFoundError\<close>, which of the two messages for \<open>RepoPermissionError\<close>,
  status code and body snippet for \<open>RuntimeError\<close>. \<open>RequestException\<close> is a transport
  failure of \<open>requests.get\<close> that nothing catches, \<open>AttributeError\<close> a method call on a
  value that does not have the method.
\<close>

datatype permission_problem = RateLimit | NoAccess

datatype error =
    ValueError
  | ConnectionError
  | RepoNotFoundError string string
  | RepoPermissionError permission_problem
  | RuntimeError int string
  | AttributeError
  | RequestException

text \<open>
  What a request gives: the transport fails (\<open>requests.get\<close> raises), or a reply arrives
  with a status code and a body.
\<close>

datatype 'a reply = Raised | Reply int 'a

text \<open>
  A decoded JSON value, as far as the resolver looks into it: a text, an object (its
  members in order), or any other value (null, a number, a truth value, an array).
\<close>

datatype json = JString string | JObject "(string \<times> json) list" | JOther

text \<open>
  The body of a reply of the repository endpoint: \<open>resp.json()\<close> (\<open>None\<close> when the body
  does not decode and \<open>json()\<close> raises) and \<open>resp.text\<close>.
\<close>

record raw_body =
  json_body :: "json option"
  body_text :: string

type_synonym headers = "(string \<times> string) list"

text \<open>The query parameters of the commit list request.\<close>

record params =
  per_page :: nat
  author :: "string option"
  page :: "nat option"

text \<open>One entry of the commit list: \<open>commit["sha"]\<close> and
  \<open>commit.get("commit", {}).get("author", {}).get("name", "")\<close>.\<close>

record commit_item =
  sha :: string
  author_name :: string

text \<open>One entry of \<open>detail.get("files", [])\<close>: \<open>f["filename"]\<close>, \<open>f.get("status", "")\<close>,
  \<open>f.get("changes", 0)\<close>, \<open>f.get("additions", 0)\<close>, \<open>f.get("deletions", 0)\<close>.\<close>

record changed_file =
  file_filename :: string
  file_status :: string
  file_changes :: int
  file_additions :: int
  file_deletions :: int

text \<open>
  A commit detail: the author date \<open>detail["commit"]["author"]["date"]\<close> as parsed by
  \<open>strptime\<close> (a UTC time, in microseconds since the epoch), \<open>detail.get("html_url")\<close> and
  the changed files.
\<close>

record commit_detail =
  author_date :: int
  html_url :: "string option"
  files :: "changed_file list"

text \<open>
  The remote API: what each of the three endpoints the analyser calls replies to a URL,
  headers and (for the commit list) query parameters. The replies are those of one run:
  the same request gets the same reply.
\<close>

record github =
  repo_endpoint :: "string \<Rightarrow> headers \<Rightarrow> raw_body reply"
  commits_endpoint :: "string \<Rightarrow> headers \<Rightarrow> params \<Rightarrow> commit_item list reply"
  commit_endpoint :: "string \<Rightarrow> headers \<Rightarrow> commit_detail reply"

text \<open>
  \<open>re.match(r"https://github\.com/([^/]+)/([^/]+)", url)\<close>: the match is anchored at the
  start of the text only. Each group is greedy, so it is the longest run of characters
  other than \<open>/\<close>; the first has to be followed by a \<open>/\<close>, and both have to be non-empty.
\<close>

definition not_slash :: "char \<Rightarrow> bool" where
  "not_slash c = (c \<noteq> CHR ''/'')"

definition match_repo_url :: "string \<Rightarrow> (string \<times> string) option" where
  "match_repo_url url =
     (if startswith url ''https://github.com/'' then
        (let rest = drop (length ''https://github.com/'') url;
             group1 = takeWhile not_slash rest;
             rest1 = dropWhile not_slash rest
         in if group1 = [] \<or> rest1 = [] then None
            else (let group2 = takeWhile not_slash (tl rest1)
                  in if group2 = [] then None else Some (group1, group2)))
      else None)"

text \<open>\<open>repo.rstrip("/")\<close>.\<close>

definition rstrip_slash :: "string \<Rightarrow> string" where
  "rstrip_slash s = rev (dropWhile (\<lambda>c. c = CHR ''/'') (rev s))"

text \<open>Lines 25 to 33 of \<open>extract_repo_info\<close>: owner and repository name from the URL, or
  \<open>None\<close> where the function raises its \<open>ValueError\<close>.\<close>

definition parse_repo_url :: "string \<Rightarrow> (string \<times> string) option" where
  "parse_repo_url url =
     (case match_repo_url url of
        None \<Rightarrow> None
      | Some (owner, repo) \<Rightarrow>
          (let repo = rstrip_slash repo;
               repo = (if endswith repo ''.git'' then take (length repo - 4) repo else repo)
           in Some (owner, repo)))"

text \<open>\<open>if token:\<close> holds for a token that is neither \<open>None\<close> nor the empty text.\<close>

definition truthy :: "string option \<Rightarrow> bool" where
  "truthy token = (case token of None \<Rightarrow> False | Some t \<Rightarrow> t \<noteq> [])"

definition repo_headers :: "string option \<Rightarrow> headers" where
  "repo_headers token =
     [(''Accept'', ''application/vnd.github.v3+json'')]
     @ (if truthy token then [(''Authorization'', ''token '' @ the token)] else [])"

text \<open>
  \<open>msg = resp.json().get("message", "")\<close> inside \<open>try\<close>/\<open>except Exception\<close>: the member
  \<open>message\<close> of a body that decodes to an object, and the empty text where the body does
  not decode, is not an object, or has no such member.
\<close>

definition body_message :: "raw_body \<Rightarrow> json" where
  "body_message body =
     (case json_body body of
        Some (JObject members) \<Rightarrow>
          (case map_of members ''message'' of Some v \<Rightarrow> v | None \<Rightarrow> JString [])
      | _ \<Rightarrow> JString [])"

text \<open>
  \<open>extract_repo_info(url, token)\<close>. The result comes with the list of the URLs requested,
  in order. \<open>msg.lower()\<close> is outside the \<open>try\<close>: a message that is not a text raises
  \<open>AttributeError\<close>.
\<close>

definition extract_repo_info ::
  "github \<Rightarrow> string \<Rightarrow> string option \<Rightarrow> (error + string \<times> string) \<times> string list" where
  "extract_repo_info w url token =
     (case parse_repo_url url of
        None \<Rightarrow> (Inl ValueError, [])
      | Some (owner, repo) \<Rightarrow>
          (let api_url = ''https://api.github.com/repos/'' @ owner @ ''/'' @ repo
           in (case repo_endpoint w api_url (repo_headers token) of
                 Raised \<Rightarrow> Inl ConnectionError
               | Reply status_code body \<Rightarrow>
                   if status_code = 404 then Inl (RepoNotFoundError owner repo)
                   else if status_code = 401 \<or> status_code = 403 then
                     (case body_message body of
                        JString msg \<Rightarrow>
                          if contains (lower msg) ''rate limit''
                          then Inl (RepoPermissionError RateLimit)
                          else Inl (RepoPermissionError NoAccess)
                      | _ \<Rightarrow> Inl AttributeError)
                   else if status_code \<noteq> 200 then
                     Inl (RuntimeError status_code (take 200 (body_text body)))
                   else Inr (owner, repo),
               [api_url])))"

text \<open>
  Two readings of the specification's words, to state the resolver's outcomes with.
  A text matches the repository prefix when it starts with \<open>https://github.com/\<close>, an
  owner, a \<open>/\<close> and a repository name, the two names non-empty and free of \<open>/\<close>.
\<close>

definition has_repo_prefix :: "string \<Rightarrow> bool" where
  "has_repo_prefix url =
     (\<exists>owner repo rest. owner \<noteq> [] \<and> repo \<noteq> [] \<and> CHR ''/'' \<notin> set owner
        \<and> CHR ''/'' \<notin> set repo \<and> url = ''https://github.com/'' @ owner @ ''/'' @ repo @ rest)"

text \<open>
  A message mentions the rate limit in some letter case when ten consecutive characters
  of it spell \<open>rate limit\<close>, each letter in its small or its capital form.
\<close>

definition any_case :: "char \<Rightarrow> char \<Rightarrow> bool" where
  "any_case c d =
     (c = d \<or> (97 \<le> (of_char d :: nat) \<and> (of_char d :: nat) \<le> 122
               \<and> (of_char c :: nat) + 32 = of_char d))"

text \<open>The characters that \<open>lower\<close> leaves alone and produces from nothing but their own
  capital form: ASCII other than the capital letters.\<close>

definition plain :: "char \<Rightarrow> bool" where
  "plain d = ((of_char d :: nat) < 128
              \<and> \<not> (65 \<le> (of_char d :: nat) \<and> (of_char d :: nat) \<le> 90))"

definition mentions_rate_limit :: "string \<Rightarrow> bool" where
  "mentions_rate_limit msg =
     (\<exists>i\<in>{..length msg}. list_all2 any_case (take 10 (drop i msg)) ''rate limit'')"

section \<open>git_analyzer: the similarity score\<close>

text \<open>
  \<open>format_python_code\<close>: \<open>isort.code\<close>, then \<open>black.format_file_contents\<close>. Each of the
  two is a parameter, \<open>None\<close> where the module is missing or the call raises; the text
  is then left as it is.
\<close>

definition format_python_code ::
  "(string \<Rightarrow> string option) \<Rightarrow> (string \<Rightarrow> string option) \<Rightarrow> string \<Rightarrow> string" where
  "format_python_code isort black code_string =
     (let formatted = code_string;
          formatted = (case isort formatted of Some r \<Rightarrow> r | None \<Rightarrow> formatted);
          formatted = (case black formatted of Some r \<Rightarrow> r | None \<Rightarrow> formatted)
      in formatted)"

subsection \<open>\<open>difflib.SequenceMatcher(None, a, b)\<close>\<close>

text \<open>
  The matcher of the Python standard library, as \<open>calculate_similarity\<close> uses it: no junk
  function (\<open>isjunk\<close> is \<open>None\<close>, so the junk set is empty and the two loops that extend a
  match over junk never run) and \<open>autojunk\<close> left on. With \<open>autojunk\<close>, an element of a
  \<open>b\<close> of 200 elements or more that occurs more often than \<open>len(b) // 100 + 1\<close> times is
  popular, and \<open>__chain_b\<close> deletes it from \<open>b2j\<close>.
\<close>

definition popular :: "string \<Rightarrow> char \<Rightarrow> bool" where
  "popular b elt = (length b \<ge> 200 \<and> count_list b elt > length b div 100 + 1)"

text \<open>\<open>b2j.get(elt, nothing)\<close>: the indices of \<open>elt\<close> in \<open>b\<close>, ascending; none for an element
  that is popular or does not occur.\<close>

definition b2j :: "string \<Rightarrow> char \<Rightarrow> nat list" where
  "b2j b elt = (if popular b elt then [] else filter (\<lambda>j. b ! j = elt) [0..<length b])"

text \<open>\<open>j2len.get(j-1, 0)\<close>; the key \<open>-1\<close> is never in the dictionary.\<close>

definition j2lenget :: "(nat \<rightharpoonup> nat) \<Rightarrow> nat \<Rightarrow> nat" where
  "j2lenget j2len j =
     (if j = 0 then 0 else (case j2len (j - 1) of None \<Rightarrow> 0 | Some k \<Rightarrow> k))"

type_synonym block = "nat \<times> nat \<times> nat"

text \<open>
  \<open>find_longest_match\<close>, the loop \<open>for j in b2j.get(a[i], nothing)\<close> of row \<open>i\<close>, over
  \<open>newj2len\<close> and the best block so far. A match of length \<open>k\<close> that ends at \<open>a[i]\<close> and
  \<open>b[j]\<close> starts at \<open>i-k+1\<close> and \<open>j-k+1\<close>; \<open>k\<close> is at most \<open>i+1\<close> and \<open>j+1\<close>.
\<close>

fun match_row ::
  "nat \<Rightarrow> nat \<Rightarrow> nat \<Rightarrow> (nat \<rightharpoonup> nat) \<Rightarrow> nat list \<Rightarrow> (nat \<rightharpoonup> nat) \<times> block
     \<Rightarrow> (nat \<rightharpoonup> nat) \<times> block" where
  "match_row i blo bhi j2len [] st = st"
| "match_row i blo bhi j2len (j # js) (newj2len, (besti, bestj, bestsize)) =
     (if j < blo then match_row i blo bhi j2len js (newj2len, (besti, bestj, bestsize))
      else if j \<ge> bhi then (newj2len, (besti, bestj, bestsize))
      else (let k = j2lenget j2len j + 1
            in match_row i blo bhi j2len js
                 (newj2len(j \<mapsto> k),
                  if k > bestsize then (i + 1 - k, j + 1 - k, k)
                  else (besti, bestj, bestsize))))"

text \<open>The loop \<open>for i in range(alo, ahi)\<close>.\<close>

fun match_rows ::
  "string \<Rightarrow> string \<Rightarrow> nat \<Rightarrow> nat \<Rightarrow> nat list \<Rightarrow> (nat \<rightharpoonup> nat) \<times> block \<Rightarrow> block" where
  "match_rows a b blo bhi [] (j2len, best) = best"
| "match_rows a b blo bhi (i # rows) (j2len, best) =
     match_rows a b blo bhi rows (match_row i blo bhi j2len (b2j b (a ! i)) (Map.empty, best))"

text \<open>The two \<open>while\<close> loops that extend the best block by equal elements on each end.\<close>

function extend_left :: "string \<Rightarrow> string \<Rightarrow> nat \<Rightarrow> nat \<Rightarrow> block \<Rightarrow> block" where
  "extend_left a b alo blo (besti, bestj, bestsize) =
     (if besti > alo \<and> bestj > blo \<and> a ! (besti - 1) = b ! (bestj - 1)
      then extend_left a b alo blo (besti - 1, bestj - 1, bestsize + 1)
      else (besti, bestj, bestsize))"
  by pat_completeness auto
termination
  by (relation "measure (\<lambda>(a, b, alo, blo, besti, bestj, bestsize). besti)") auto

function extend_right :: "string \<Rightarrow> string \<Rightarrow> nat \<Rightarrow> nat \<Rightarrow> block \<Rightarrow> block" where
  "extend_right a b ahi bhi (besti, bestj, bestsize) =
     (if besti + bestsize < ahi \<and> bestj + bestsize < bhi
         \<and> a ! (besti + bestsize) = b ! (bestj + bestsize)
      then extend_right a b ahi bhi (besti, bestj, bestsize + 1)
      else (besti, bestj, bestsize))"
  by pat_completeness auto
termination
  by (relation "measure (\<lambda>(a, b, ahi, bhi, besti, bestj, bestsize). ahi - (besti + bestsize))")
    auto

declare extend_left.simps [simp del] extend_right.simps [simp del]

definition find_longest_match :: "string \<Rightarrow> string \<Rightarrow> nat \<Rightarrow> nat \<Rightarrow> nat \<Rightarrow> nat \<Rightarrow> block" where
  "find_longest_match a b alo ahi blo bhi =
     extend_right a b ahi bhi
       (extend_left a b alo blo
          (match_rows a b blo bhi [alo..<ahi] (Map.empty, (alo, blo, 0))))"

text \<open>
  \<open>get_matching_blocks\<close>, the loop \<open>while queue\<close>. The queue is a stack: \<open>pop()\<close> takes
  the entry appended last, which is the head of the list here. \<open>None\<close> is a loop that
  does not end.
\<close>

partial_function (option) matching_loop ::
  "string \<Rightarrow> string \<Rightarrow> (nat \<times> nat \<times> nat \<times> nat) list \<Rightarrow> block list \<Rightarrow> block list option" where
  "matching_loop a b queue matching_blocks =
     (case queue of
        [] \<Rightarrow> Some matching_blocks
      | q # queue' \<Rightarrow>
          (case q of (alo, ahi, blo, bhi) \<Rightarrow>
             (case find_longest_match a b alo ahi blo bhi of (i, j, k) \<Rightarrow>
                if k \<noteq> 0
                then matching_loop a b
                       ((if i + k < ahi \<and> j + k < bhi then [(i + k, ahi, j + k, bhi)] else [])
                        @ (if alo < i \<and> blo < j then [(alo, i, blo, j)] else [])
                        @ queue')
                       (matching_blocks @ [(i, j, k)])
                else matching_loop a b queue' matching_blocks)))"

declare matching_loop.simps [code]

text \<open>The loop that collapses adjacent blocks, over \<open>(i1, j1, k1)\<close> and \<open>non_adjacent\<close>.\<close>

fun collapse :: "block list \<Rightarrow> block \<Rightarrow> block list \<Rightarrow> block list" where
  "collapse [] (i1, j1, k1) non_adjacent =
     (if k1 \<noteq> 0 then non_adjacent @ [(i1, j1, k1)] else non_adjacent)"
| "collapse ((i2, j2, k2) # rest) (i1, j1, k1) non_adjacent =
     (if i1 + k1 = i2 \<and> j1 + k1 = j2 then collapse rest (i1, j1, k1 + k2) non_adjacent
      else collapse rest (i2, j2, k2)
             (if k1 \<noteq> 0 then non_adjacent @ [(i1, j1, k1)] else non_adjacent))"

definition get_matching_blocks :: "string \<Rightarrow> string \<Rightarrow> block list option" where
  "get_matching_blocks a b =
     (case matching_loop a b [(0, length a, 0, length b)] [] of
        None \<Rightarrow> None
      | Some matching_blocks \<Rightarrow>
          Some (collapse (sort matching_blocks) (0, 0, 0) [] @ [(length a, length b, 0)]))"

text \<open>\<open>_calculate_ratio\<close> and \<open>ratio\<close>, over the reals.\<close>

definition calculate_ratio :: "nat \<Rightarrow> nat \<Rightarrow> real" where
  "calculate_ratio matches len = (if len \<noteq> 0 then 2 * real matches / real len else 1)"

definition ratio :: "string \<Rightarrow> string \<Rightarrow> real option" where
  "ratio a b =
     (case get_matching_blocks a b of
        None \<Rightarrow> None
      | Some blocks \<Rightarrow>
          Some (calculate_ratio (sum_list (map (\<lambda>(i, j, k). k) blocks)) (length a + length b)))"

text \<open>\<open>calculate_similarity(local_code, remote_code)\<close>.\<close>

definition calculate_similarity ::
  "(string \<Rightarrow> string option) \<Rightarrow> (string \<Rightarrow> string option) \<Rightarrow> string \<Rightarrow> string \<Rightarrow> real option" where
  "calculate_similarity isort black local_code remote_code =
     (let formatted_local_code = format_python_code isort black local_code;
          formatted_remote_code = format_python_code isort black remote_code
      in (case ratio formatted_local_code formatted_remote_code of
            None \<Rightarrow> None
          | Some r \<Rightarrow> Some (round2 (r * 100))))"

text \<open>
  For the proofs: the length of the run of elements that are not popular which ends at
  index \<open>j\<close> of \<open>b\<close>.
\<close>

fun clean_run :: "string \<Rightarrow> nat \<Rightarrow> nat" where
  "clean_run b 0 = (if popular b (b ! 0) then 0 else 1)"
| "clean_run b (Suc j) = (if popular b (b ! Suc j) then 0 else Suc (clean_run b j))"

section \<open>git_analyzer: coding time\<close>

text \<open>
  A \<open>datetime\<close> is the number of microseconds since the epoch, a \<open>timedelta\<close> a number
  of microseconds. \<open>total_seconds()\<close> and the division by 60 are exact here: each is
  a \<open>float\<close> in Python, rounded by less than one part in \<open>2 ^ 52\<close>, which reaches the next
  whole minute only in spans of centuries; that rounding is not part of the model. \<open>int(x)\<close> cuts the fraction off,
  towards zero.
\<close>

definition total_seconds :: "int \<Rightarrow> rat" where
  "total_seconds duration = of_int duration / 1000000"

definition py_int :: "rat \<Rightarrow> int" where
  "py_int x = (if 0 \<le> x then \<lfloor>x\<rfloor> else \<lceil>x\<rceil>)"

definition calculate_duration :: "int \<Rightarrow> int \<Rightarrow> string" where
  "calculate_duration start_time end_time =
     (let duration = end_time - start_time;
          total_minutes = py_int (total_seconds duration / 60)
      in str_int total_minutes @ minute_mark)"

section \<open>git_analyzer: the commit harvester\<close>

text \<open>One entry of \<open>raw_data\<close>: a changed file of a commit that passed every filter.\<close>

record commit_file_record =
  user :: string
  date :: int
  filename :: string
  total_changes :: int
  additions :: int
  deletions :: int
  status :: string
  url :: "string option"

text \<open>\<open>timedelta(hours=9)\<close>.\<close>

definition nine_hours :: int where
  "nine_hours = 9 * 3600 * 1000000"

text \<open>
  \<open>_fetch_commits\<close>, innermost loop: \<open>for f in detail.get("files", [])\<close>, appending to
  \<open>raw_data\<close>.
\<close>

fun fetch_commits_files ::
  "string \<Rightarrow> string \<Rightarrow> int \<Rightarrow> string option \<Rightarrow> changed_file list
     \<Rightarrow> commit_file_record list \<Rightarrow> commit_file_record list" where
  "fetch_commits_files directory username local_date link [] raw_data = raw_data"
| "fetch_commits_files directory username local_date link (f # fs) raw_data =
     (let filepath = file_filename f; st = file_status f
      in if startswith filepath directory \<and> endswith filepath ''.py'' \<and> st \<noteq> ''removed''
         then fetch_commits_files directory username local_date link fs
                (raw_data @ [\<lparr>user = username, date = local_date, filename = filepath,
                               total_changes = file_changes f, additions = file_additions f,
                               deletions = file_deletions f, status = st, url = link\<rparr>])
         else fetch_commits_files directory username local_date link fs raw_data)"

text \<open>
  The body of \<open>for commit in commits\<close>: the author name filter of the second pass, the
  detail request (a reply other than 200 skips the commit), the shift to UTC+9, the
  inclusive time window, and the loop over the files.
\<close>

definition fetch_commits_commit ::
  "github \<Rightarrow> string \<Rightarrow> headers \<Rightarrow> bool \<Rightarrow> string \<Rightarrow> int \<Rightarrow> int \<Rightarrow> string
     \<Rightarrow> commit_item \<Rightarrow> commit_file_record list \<Rightarrow> error + commit_file_record list" where
  "fetch_commits_commit w base_url hdrs name_filter directory start_filter end_filter username
       commit raw_data =
     (if name_filter \<and> author_name commit \<noteq> username then Inr raw_data
      else (case commit_endpoint w (base_url @ ''/'' @ sha commit) hdrs of
              Raised \<Rightarrow> Inl RequestException
            | Reply status_code detail \<Rightarrow>
                if status_code \<noteq> 200 then Inr raw_data
                else (let local_date = author_date detail + nine_hours
                      in if \<not> (start_filter \<le> local_date \<and> local_date \<le> end_filter)
                         then Inr raw_data
                         else Inr (fetch_commits_files directory username local_date
                                     (html_url detail) (files detail) raw_data))))"

fun fetch_commits_page ::
  "github \<Rightarrow> string \<Rightarrow> headers \<Rightarrow> bool \<Rightarrow> string \<Rightarrow> int \<Rightarrow> int \<Rightarrow> string
     \<Rightarrow> commit_item list \<Rightarrow> commit_file_record list \<Rightarrow> error + commit_file_record list" where
  "fetch_commits_page w base_url hdrs name_filter directory start_filter end_filter username
       [] raw_data = Inr raw_data"
| "fetch_commits_page w base_url hdrs name_filter directory start_filter end_filter username
       (commit # commits) raw_data =
     (case fetch_commits_commit w base_url hdrs name_filter directory start_filter end_filter
             username commit raw_data of
        Inl e \<Rightarrow> Inl e
      | Inr raw_data' \<Rightarrow>
          fetch_commits_page w base_url hdrs name_filter directory start_filter end_filter
            username commits raw_data')"

text \<open>
  The \<open>while True\<close> loop over the pages. It ends at the first page that is empty or whose
  status is not 200 (the records collected so far are then dropped); a server that never
  sends such a page keeps it running, which is the value \<open>None\<close>.
\<close>

partial_function (option) fetch_commits_loop ::
  "github \<Rightarrow> string \<Rightarrow> headers \<Rightarrow> params \<Rightarrow> string \<Rightarrow> int \<Rightarrow> int \<Rightarrow> string
     \<Rightarrow> nat \<Rightarrow> commit_file_record list \<Rightarrow> (error + commit_file_record list) option" where
  "fetch_commits_loop w base_url hdrs ps directory start_filter end_filter username pg raw_data =
     (case commits_endpoint w base_url hdrs (ps\<lparr>page := Some pg\<rparr>) of
        Raised \<Rightarrow> Some (Inl RequestException)
      | Reply status_code commits \<Rightarrow>
          if status_code \<noteq> 200 then Some (Inr [])
          else if commits = [] then Some (Inr raw_data)
          else (case fetch_commits_page w base_url hdrs (author ps = None) directory
                       start_filter end_filter username commits raw_data of
                  Inl e \<Rightarrow> Some (Inl e)
                | Inr raw_data' \<Rightarrow>
                    fetch_commits_loop w base_url hdrs ps directory start_filter end_filter
                      username (pg + 1) raw_data'))"

declare fetch_commits_loop.simps [code]

definition fetch_commits ::
  "github \<Rightarrow> string \<Rightarrow> headers \<Rightarrow> params \<Rightarrow> string \<Rightarrow> int \<Rightarrow> int \<Rightarrow> string
     \<Rightarrow> (error + commit_file_record list) option" where
  "fetch_commits w base_url hdrs ps directory start_filter end_filter username =
     fetch_commits_loop w base_url hdrs ps directory start_filter end_filter username 1 []"

section \<open>git_analyzer: excluding each file's first commit\<close>

text \<open>
  \<open>df.groupby("filename")["date"].rank(method="first")\<close>: within the rows of its file, a
  row's rank is one more than the number of rows that come before it in ascending date
  order, rows of equal date in the order of the frame.
\<close>

definition rank_first :: "commit_file_record list \<Rightarrow> nat \<Rightarrow> nat" where
  "rank_first df i =
     1 + length (filter (\<lambda>j. filename (df ! j) = filename (df ! i)
                            \<and> (date (df ! j) < date (df ! i)
                                \<or> (date (df ! j) = date (df ! i) \<and> j < i)))
                   [0..<length df])"

text \<open>\<open>df.groupby("filename")["filename"].transform("count")\<close>: the number of rows of the
  row's file.\<close>

definition group_count :: "commit_file_record list \<Rightarrow> nat \<Rightarrow> nat" where
  "group_count df i = length (filter (\<lambda>r. filename r = filename (df ! i)) df)"

text \<open>
  \<^verbatim>\<open>
  df["rank"] = df.groupby("filename")["date"].rank(method="first")
  df = df[~((df["rank"] == 1) & (df.groupby("filename")["filename"].transform("count") > 1))]
  \<close>
\<close>

definition exclude_first_commits :: "commit_file_record list \<Rightarrow> commit_file_record list" where
  "exclude_first_commits df =
     map (\<lambda>i. df ! i)
       (filter (\<lambda>i. \<not> (rank_first df i = 1 \<and> group_count df i > 1)) [0..<length df])"

section \<open>git_analyzer: from the repository address to the commit-file records\<close>

text \<open>\<open>f"token {token}"\<close>.\<close>

definition token_header :: "string option \<Rightarrow> string" where
  "token_header token = ''token '' @ (case token of None \<Rightarrow> ''None'' | Some t \<Rightarrow> t)"

text \<open>
  \<open>analyze_commits\<close> up to the frame of commit-file records that the aggregation groups
  by file name (lines 186 to 224). \<open>week\<close> is what \<open>load_week_range()\<close> returns: the label
  and the two ends of the week. The prefix handed to \<open>_fetch_commits\<close> is
  \<open>github_directory\<close>, the empty text; \<open>directory\<close> is computed and not read again.
\<close>

definition analyze_commits ::
  "github \<Rightarrow> string \<times> int \<times> int \<Rightarrow> string \<Rightarrow> string option \<Rightarrow> string \<Rightarrow> string \<Rightarrow> bool
     \<Rightarrow> (error + commit_file_record list) option" where
  "analyze_commits w week github_url token username directory exclude_first_commit =
     (case fst (extract_repo_info w github_url token) of
        Inl e \<Rightarrow> Some (Inl e)
      | Inr (repo_owner, repo_name) \<Rightarrow>
          (let (week_label, start_filter, end_filter) = week;
               github_directory = [];
               directory =
                 (if directory = [] then
                    (let directory = week_label
                     in if directory \<noteq> [] \<and> \<not> endswith directory ''/''
                        then directory @ ''/'' else directory)
                  else directory);
               base_url = ''https://api.github.com/repos/'' @ repo_owner @ ''/'' @ repo_name
                          @ ''/commits'';
               hdrs = [(''Authorization'', token_header token),
                       (''Accept'', ''application/vnd.github.v3+json'')];
               first_pass = fetch_commits w base_url hdrs
                              \<lparr>per_page = 100, author = Some username, page = None\<rparr>
                              github_directory start_filter end_filter username
           in (case first_pass of
                 None \<Rightarrow> None
               | Some (Inl e) \<Rightarrow> Some (Inl e)
               | Some (Inr raw_data) \<Rightarrow>
                   (case (if raw_data = []
                          then fetch_commits w base_url hdrs
                                 \<lparr>per_page = 100, author = None, page = None\<rparr>
                                 github_directory start_filter end_filter username
                          else Some (Inr raw_data)) of
                      None \<Rightarrow> None
                    | Some (Inl e) \<Rightarrow> Some (Inl e)
                    | Some (Inr raw_data) \<Rightarrow>
                        if raw_data = [] then Some (Inr [])
                        else Some (Inr (if exclude_first_commit
                                        then exclude_first_commits raw_data
                                        else raw_data))))))"

text \<open>
  The specification's rule for a changed file, and the record that the harvester writes
  for a file it keeps.
\<close>

definition kept_file :: "string \<Rightarrow> changed_file \<Rightarrow> bool" where
  "kept_file directory f =
     (startswith (file_filename f) directory \<and> endswith (file_filename f) ''.py''
      \<and> file_status f \<noteq> ''removed'')"

definition record_of :: "string \<Rightarrow> int \<Rightarrow> string option \<Rightarrow> changed_file \<Rightarrow> commit_file_record" where
  "record_of username local_date link f =
     \<lparr>user = username, date = local_date, filename = file_filename f,
      total_changes = file_changes f, additions = file_additions f,
      deletions = file_deletions f, status = file_status f, url = link\<rparr>"

text \<open>
  The specification's words for the record to drop: row \<open>i\<close> is the chronologically
  earliest of its file when no row of the file has a smaller date, and among the rows
  of the file with the same date it comes first in the frame.
\<close>

definition is_earliest :: "commit_file_record list \<Rightarrow> nat \<Rightarrow> bool" where
  "is_earliest df i =
     ((\<forall>j\<in>{..<length df}. filename (df ! j) = filename (df ! i) \<longrightarrow> date (df ! i) \<le> date (df ! j))
      \<and> (\<forall>j\<in>{..<i}. filename (df ! j) = filename (df ! i) \<longrightarrow> date (df ! j) \<noteq> date (df ! i)))"

text \<open>The rows of one file, in the order of the frame.\<close>

definition rows_of :: "string \<Rightarrow> commit_file_record list \<Rightarrow> commit_file_record list" where
  "rows_of f df = filter (\<lambda>r. filename r = f) df"

section \<open>html_parser: z-scores, outlier flags and the final grade\<close>

text \<open>
  \<open>_parse_minutes\<close>: \<open>re.search(r'(\d+)', s)\<close> finds the first maximal run of digits;
  without one the result is 0.
\<close>

definition parse_minutes :: "string \<Rightarrow> int" where
  "parse_minutes duration_str =
     (let match = takeWhile is_digit (dropWhile (\<lambda>c. \<not> is_digit c) duration_str)
      in if match \<noteq> [] then int_of_digits match else 0)"

text \<open>
  The numeric columns are numpy arrays of \<open>float64\<close>, and every operation on them rounds
  its exact result with \<open>fl64\<close>. \<open>np.sum\<close> adds from the left, starting at 0: that is the
  order of numpy for fewer than 8 elements (longer arrays are added in blocks, which the
  model does not follow). \<open>np.mean\<close> is the sum divided by the number of elements, and
  \<open>np.std\<close> the population standard deviation as numpy computes it:
  \<^verbatim>\<open>
  arrmean = sum(arr) / n
  x = arr - arrmean
  x = x * x
  std = sqrt(sum(x) / n)
  \<close>
  For an empty array numpy gives NaN with a warning; the model gives 0, and in both the
  array of z-scores is empty.
\<close>

definition np_sum :: "real list \<Rightarrow> real" where
  "np_sum xs = foldl (\<lambda>res x. fl64 (res + x)) 0 xs"

definition np_mean :: "real list \<Rightarrow> real" where
  "np_mean xs = fl64 (np_sum xs / real (length xs))"

definition np_var :: "real list \<Rightarrow> real" where
  "np_var xs =
     (let arrmean = fl64 (np_sum xs / real (length xs));
          x = map (\<lambda>v. fl64 (v - arrmean)) xs;
          x = map (\<lambda>v. fl64 (v * v)) x
      in fl64 (np_sum x / real (length xs)))"

definition np_std :: "real list \<Rightarrow> real" where
  "np_std xs = fl64 (sqrt (np_var xs))"

text \<open>
  The block that \<open>save_dataframe_as_html\<close> repeats for each of its three z-scored columns:
  \<^verbatim>\<open>
  mean = np.mean(values)
  std = np.std(values)
  if std != 0: z = (values - mean) / std
  else:        z = np.zeros(len(values))
  \<close>
\<close>

definition z_scores :: "real list \<Rightarrow> real list" where
  "z_scores xs =
     (let mean = np_mean xs; std = np_std xs
      in if std \<noteq> 0 then map (\<lambda>x. fl64 (fl64 (x - mean) / std)) xs
         else replicate (length xs) 0)"

text \<open>\<open>np.round(z, 2)\<close>: numpy multiplies by 100, rounds to the nearest integer (a tie to
  the even one) and divides by 100, each in \<open>float64\<close>.\<close>

definition np_round2 :: "real \<Rightarrow> real" where
  "np_round2 z = fl64 (of_int (round_half_even (fl64 (z * 100))) / 100)"

text \<open>The columns as arrays of \<open>float64\<close>: an integer of the commit counts and of the
  coding minutes is converted, and \<open>float(s)\<close> is the float nearest to the decimal number
  that \<open>s\<close> writes.\<close>

definition float64_of_int :: "int \<Rightarrow> real" where
  "float64_of_int k = fl64 (of_int k)"

definition float_of_decimal :: "real \<Rightarrow> real" where
  "float_of_decimal x = fl64 x"

text \<open>
  A row of the table that the report builder receives, with the columns that the grading
  reads already split and parsed: the commit count (\<open>_split_filename_and_count\<close>), the
  mean changed lines (the decimal number that the first token of its cell writes), the similarity
  (\<open>None\<close> for NaN), the coding time as written by \<open>calculate_duration\<close>, and the
  provisional grade.
\<close>

record summary_row =
  commit_count :: int
  avg_changes :: real
  code_similarity :: "real option"
  coding_time :: string
  result :: string

text \<open>The same row after grading, with the columns that the report builder adds.\<close>

record graded_row = summary_row +
  z_score_commit :: real
  commit_count_is_outlier :: bool
  z_score_changes :: real
  avg_changes_is_outlier :: bool
  code_similarity_is_outlier :: bool
  z_score_minutes :: real
  coding_minutes_is_outlier :: bool
  outlier_count :: int

text \<open>
  The grade column is first set to \<open>success\<close> in every row and then overwritten twice:
  \<^verbatim>\<open>
  df['result'] = 'success'
  df.loc[df['outlier_count'] >= 3, 'result'] = 'fail'
  df.loc[(df['outlier_count'] >= 1) & (df['outlier_count'] < 3), 'result'] = 'warning'
  \<close>
\<close>

definition final_grade :: "int \<Rightarrow> string" where
  "final_grade n =
     (let g = ''success'';
          g = (if n \<ge> 3 then ''fail'' else g);
          g = (if n \<ge> 1 \<and> n < 3 then ''warning'' else g)
      in g)"

definition astype_int :: "bool \<Rightarrow> int" where
  "astype_int b = (if b then 1 else 0)"

text \<open>One row, given its three raw z-scores.\<close>

definition grade_row :: "summary_row \<Rightarrow> real \<Rightarrow> real \<Rightarrow> real \<Rightarrow> graded_row" where
  "grade_row r zc zch zm =
     (let c_out = (zc < -1.0);
          ch_out = (zch > 2.0);
          s_out = (case code_similarity r of None \<Rightarrow> True | Some s \<Rightarrow> s < 85.0);
          m_out = (zm < -1.0);
          n = astype_int c_out + astype_int ch_out + astype_int s_out + astype_int m_out
      in \<lparr>commit_count = commit_count r, avg_changes = avg_changes r,
          code_similarity = code_similarity r, coding_time = coding_time r,
          result = final_grade n,
          z_score_commit = np_round2 zc, commit_count_is_outlier = c_out,
          z_score_changes = np_round2 zch, avg_changes_is_outlier = ch_out,
          code_similarity_is_outlier = s_out,
          z_score_minutes = np_round2 zm, coding_minutes_is_outlier = m_out,
          outlier_count = n\<rparr>)"

text \<open>
  \<open>save_dataframe_as_html\<close> up to the grade column: the table with its z-scores, flags,
  outlier counts and final grades, in the order of the input rows. The HTML is written
  from this table.
\<close>

definition save_dataframe_as_html :: "summary_row list \<Rightarrow> graded_row list" where
  "save_dataframe_as_html df =
     (let commit_counts = map (\<lambda>r. float64_of_int (commit_count r)) df;
          z_scores_commit = z_scores commit_counts;
          avg_changes = map (\<lambda>r. float_of_decimal (avg_changes r)) df;
          z_scores_changes = z_scores avg_changes;
          coding_minutes = map (\<lambda>r. float64_of_int (parse_minutes (coding_time r))) df;
          z_scores_minutes = z_scores coding_minutes
      in map (\<lambda>(r, zc, zch, zm). grade_row r zc zch zm)
           (zip df (zip z_scores_commit (zip z_scores_changes z_scores_minutes))))"

section \<open>Example data\<close>

text \<open>
  A small remote for the examples. Of the repositories of \<open>octo\<close>, \<open>hello\<close> exists,
  \<open>missing\<close> does not, \<open>limited\<close> and \<open>private\<close> are refused with and without a mention of
  the rate limit, and \<open>broken\<close> fails on the server. \<open>hello\<close> has one commit by \<open>kim\<close>,
  made one hour after the epoch, that touches four files.
\<close>

definition example_files :: "changed_file list" where
  "example_files =
    [\<lparr>file_filename = ''notes/app.py'', file_status = ''modified'',
       file_changes = 5, file_additions = 4, file_deletions = 1\<rparr>,
     \<lparr>file_filename = ''week03/src/app.py'', file_status = ''modified'',
       file_changes = 3, file_additions = 2, file_deletions = 1\<rparr>,
     \<lparr>file_filename = ''week03/app.txt'', file_status = ''added'',
       file_changes = 1, file_additions = 1, file_deletions = 0\<rparr>,
     \<lparr>file_filename = ''week03/old.py'', file_status = ''removed'',
       file_changes = 7, file_additions = 0, file_deletions = 7\<rparr>]"

definition example_detail :: commit_detail where
  "example_detail =
     \<lparr>author_date = 3600000000, html_url = Some ''https://github.com/octo/hello/commit/c1'',
      files = example_files\<rparr>"

definition example_github :: github where
  "example_github =
     \<lparr>repo_endpoint = (\<lambda>address hdrs.
        if address = ''https://api.github.com/repos/octo/hello''
        then Reply 200 \<lparr>json_body = Some (JObject []), body_text = ''{}''\<rparr>
        else if address = ''https://api.github.com/repos/octo/missing''
        then Reply 404 \<lparr>json_body = Some (JObject [(''message'', JString ''Not Found'')]),
                        body_text = ''Not Found''\<rparr>
        else if address = ''https://api.github.com/repos/octo/limited''
        then Reply 403 \<lparr>json_body =
                          Some (JObject [(''message'', JString ''API Rate Limit exceeded'')]),
                        body_text = ''API Rate Limit exceeded''\<rparr>
        else if address = ''https://api.github.com/repos/octo/private''
        then Reply 401 \<lparr>json_body = None, body_text = ''Unauthorized''\<rparr>
        else if address = ''https://api.github.com/repos/octo/broken''
        then Reply 500 \<lparr>json_body = None, body_text = ''Server Error''\<rparr>
        else Raised),
      commits_endpoint = (\<lambda>address hdrs ps.
        if address = ''https://api.github.com/repos/octo/hello/commits''
        then (if page ps = Some 1 \<and> author ps = Some ''kim''
              then Reply 200 [\<lparr>sha = ''c1'', author_name = ''Kim''\<rparr>]
              else Reply 200 [])
        else Reply 404 []),
      commit_endpoint = (\<lambda>address hdrs.
        if address = ''https://api.github.com/repos/octo/hello/commits/c1''
        then Reply 200 example_detail
        else Reply 404 \<lparr>author_date = 0, html_url = None, files = []\<rparr>)\<rparr>"

text \<open>The week of the examples: labelled \<open>week03\<close>, seven days from the epoch.\<close>

definition example_week :: "string \<times> int \<times> int" where
  "example_week = (''week03'', 0, 604800000000)"

text \<open>Records of two files for the examples of the first-commit filter: \<open>commit_of f t\<close> is
  a record of file \<open>f\<close> at time \<open>t\<close>.\<close>

definition commit_of :: "string \<Rightarrow> int \<Rightarrow> commit_file_record" where
  "commit_of f t =
     \<lparr>user = ''kim'', date = t, filename = f, total_changes = 2, additions = 1,
      deletions = 1, status = ''modified'', url = None\<rparr>"

definition example_frame :: "commit_file_record list" where
  "example_frame =
     [commit_of ''a.py'' 5, commit_of ''b.py'' 1, commit_of ''a.py'' 5,
      commit_of ''a.py'' 3, commit_of ''a.py'' 3]"

text \<open>An environment without \<open>isort\<close> and without \<open>black\<close>: every text is left as it is.\<close>

definition no_formatter :: "string \<Rightarrow> string option" where
  "no_formatter code_string = None"

text \<open>A table for the examples: four files, the first with one commit and a coding time
  of one minute, the others with seven, seven and nine of each; two of them have no
  similarity. Every cell of mean changed lines reads \<open>2.0\<close>.\<close>

definition example_table :: "summary_row list" where
  "example_table =
    [\<lparr>commit_count = 1, avg_changes = 2, code_similarity = None,
       coding_time = ''1'', result = ''fail''\<rparr>,
     \<lparr>commit_count = 7, avg_changes = 2, code_similarity = Some 90,
       coding_time = ''7'', result = ''success''\<rparr>,
     \<lparr>commit_count = 7, avg_changes = 2, code_similarity = None,
       coding_time = ''7'', result = ''success''\<rparr>,
     \<lparr>commit_count = 9, avg_changes = 2, code_similarity = Some 90,
       coding_time = ''9'', result = ''success''\<rparr>]"

text \<open>Three files with the same metrics: 5 commits, a cell of mean changed lines that
  reads \<open>5.6\<close> (28 changed lines in 5 commits), 30 minutes.\<close>

definition constant_table :: "summary_row list" where
  "constant_table =
    [\<lparr>commit_count = 5, avg_changes = 5.6, code_similarity = Some 97,
       coding_time = ''30'' @ minute_mark, result = ''success''\<rparr>,
     \<lparr>commit_count = 5, avg_changes = 5.6, code_similarity = Some 97,
       coding_time = ''30'' @ minute_mark, result = ''success''\<rparr>,
     \<lparr>commit_count = 5, avg_changes = 5.6, code_similarity = Some 97,
       coding_time = ''30'' @ minute_mark, result = ''success''\<rparr>]"

section \<open>Properties\<close>

subsection \<open>The provisional grade below its domain\<close>

text \<open>C10: every commit count at or below zero is graded \<open>success\<close>, the grade of the
  counts from 5 on, through the final \<open>else\<close> branch of \<open>calculate_result\<close>; in
  particular the count 0 is not graded \<open>fail\<close>.\<close>

theorem calculate_result_nonpositive:
  "c \<le> 0 \<Longrightarrow> 5 \<le> d \<Longrightarrow>
     calculate_result c = ''success'' \<and> calculate_result d = calculate_result c
     \<and> calculate_result c \<noteq> ''fail''"
  by (simp add: calculate_result_def)

theorem calculate_result_nonpositive_witness:
  "(0::int) \<le> 0 \<and> (5::int) \<le> 5 \<and> calculate_result 0 = ''success''
     \<and> calculate_result 5 = calculate_result 0 \<and> calculate_result 0 \<noteq> ''fail''"
  using calculate_result_nonpositive [of 0 5] by simp

subsection \<open>Floats\<close>

text \<open>A number with a significand of 53 bits is rounded at the last place of the
  significand, and a number that needs no more than 53 bits is a float.\<close>

lemma fl64_0: "fl64 0 = 0"
  by (simp add: fl64_def)

lemma round_half_even_of_int: "round_half_even (of_int k) = k"
  by (simp add: round_half_even_def)

lemma fl64_scaled:
  assumes lo: "2 ^ 52 \<le> \<bar>y\<bar>" and hi: "\<bar>y\<bar> < 2 ^ 53"
  shows "fl64 (y * 2 powr of_int e) = of_int (round_half_even y) * 2 powr of_int e"
proof -
  let ?x = "y * 2 powr of_int e"
  have p: "(0::real) < 2 powr of_int e" by simp
  from lo have y0: "y \<noteq> 0" by auto
  then have x0: "?x \<noteq> 0" by simp
  have ax: "\<bar>?x\<bar> = \<bar>y\<bar> * 2 powr of_int e" by (simp add: abs_mult)
  have "2 powr real_of_int (52 + e) = 2 ^ 52 * 2 powr of_int e"
    by (simp add: powr_add)
  moreover have "2 powr real_of_int (52 + e + 1) = 2 ^ 53 * 2 powr of_int e"
    by (simp add: powr_add)
  ultimately have "2 powr real_of_int (52 + e) \<le> \<bar>?x\<bar> \<and> \<bar>?x\<bar> < 2 powr real_of_int (52 + e + 1)"
    unfolding ax using lo hi p by simp
  moreover have "0 < \<bar>?x\<bar>" using x0 by simp
  ultimately have "\<lfloor>log 2 \<bar>?x\<bar>\<rfloor> = 52 + e"
    by (subst floor_log_eq_powr_iff) simp_all
  then have e: "\<lfloor>log 2 \<bar>?x\<bar>\<rfloor> - 52 = e" by simp
  have q: "?x / 2 powr of_int e = y" by simp
  show ?thesis
    unfolding fl64_def Let_def e q using x0 by simp
qed

lemma fl64_down:
  assumes "2 ^ 52 \<le> \<bar>y\<bar>" and "\<bar>y\<bar> < 2 ^ 53"
  shows "fl64 (y / 2 ^ n) = of_int (round_half_even y) / 2 ^ n"
proof -
  have "2 powr real_of_int (- int n) = 1 / (2 :: real) ^ n"
    by (simp add: powr_minus powr_realpow divide_simps)
  with fl64_scaled [OF assms, of "- int n"] show ?thesis by simp
qed

lemma normalise_53:
  fixes m :: nat
  assumes "0 < m" and "m < 2 ^ 53"
  shows "\<exists>j. 2 ^ 52 \<le> m * 2 ^ j \<and> m * 2 ^ j < 2 ^ 53"
proof -
  define P where "P j \<longleftrightarrow> 2 ^ 52 \<le> m * 2 ^ j" for j
  have "P 52" using assms(1) by (simp add: P_def)
  define j where "j = (LEAST j. P j)"
  have Pj: "P j" unfolding j_def using \<open>P 52\<close> by (rule LeastI)
  have "m * 2 ^ j < 2 ^ 53"
  proof (cases j)
    case 0
    with assms(2) show ?thesis by simp
  next
    case (Suc i)
    have "\<not> P i"
      using not_less_Least [of i P] Suc by (simp add: j_def)
    then have "m * 2 ^ i < 2 ^ 52" by (simp add: P_def)
    then show ?thesis using Suc by simp
  qed
  with Pj show ?thesis unfolding P_def by blast
qed

lemma fl64_exact:
  assumes "\<bar>k\<bar> < 2 ^ 53"
  shows "fl64 (of_int k * 2 powr of_int e) = of_int k * 2 powr of_int e"
proof (cases "k = 0")
  case True
  then show ?thesis by (simp add: fl64_0)
next
  case False
  define m where "m = nat \<bar>k\<bar>"
  have m: "0 < m" "m < 2 ^ 53" "int m = \<bar>k\<bar>"
    using False assms by (simp_all add: m_def nat_less_iff)
  from normalise_53 [OF m(1,2)] obtain j where j: "2 ^ 52 \<le> m * 2 ^ j" "m * 2 ^ j < 2 ^ 53"
    by blast
  define y :: real where "y = of_int (k * 2 ^ j)"
  have "\<bar>y\<bar> = real (m * 2 ^ j)"
    unfolding y_def using m(3) by (simp add: abs_mult)
  with j have "2 ^ 52 \<le> \<bar>y\<bar>" "\<bar>y\<bar> < 2 ^ 53"
    by (metis of_nat_le_iff of_nat_numeral of_nat_power, metis of_nat_less_iff of_nat_numeral of_nat_power)
  from fl64_scaled [OF this, of "e - int j"]
  have "fl64 (y * 2 powr of_int (e - int j)) = y * 2 powr of_int (e - int j)"
    unfolding y_def round_half_even_of_int .
  moreover have "y * 2 powr of_int (e - int j) = of_int k * 2 powr of_int e"
    by (simp add: y_def powr_diff powr_realpow)
  ultimately show ?thesis by (simp only:)
qed

lemma fl64_of_int:
  assumes "\<bar>k\<bar> < 2 ^ 53"
  shows "fl64 (of_int k) = of_int k"
  using fl64_exact [OF assms, of 0] by simp

lemma fl64_of_int_div:
  assumes "\<bar>k\<bar> < 2 ^ 53"
  shows "fl64 (of_int k / 2 ^ n) = of_int k / 2 ^ n"
proof -
  have "2 powr real_of_int (- int n) = 1 / (2 :: real) ^ n"
    by (simp add: powr_minus powr_realpow divide_simps)
  with fl64_exact [OF assms, of "- int n"] show ?thesis by simp
qed

lemma np_sum_foldl_replicate_int:
  assumes "\<bar>c\<bar> * int (k + n) < 2 ^ 53"
  shows "foldl (\<lambda>res x. fl64 (res + x)) (of_int (c * int k)) (replicate n (of_int c))
     = of_int (c * int (k + n))"
  using assms
proof (induction n arbitrary: k)
  case 0
  then show ?case by simp
next
  case (Suc n)
  have le: "\<bar>c\<bar> * int (Suc k) \<le> \<bar>c\<bar> * int (k + Suc n)"
    by (intro mult_left_mono) simp_all
  have "real_of_int (c * int k) + real_of_int c = real_of_int (c * int (Suc k))"
    by (simp add: algebra_simps)
  moreover have "fl64 (real_of_int (c * int (Suc k))) = real_of_int (c * int (Suc k))"
    using le Suc.prems by (intro fl64_of_int) (simp add: abs_mult)
  ultimately have step: "fl64 (real_of_int (c * int k) + real_of_int c) = real_of_int (c * int (Suc k))"
    by simp
  have "foldl (\<lambda>res x. fl64 (res + x)) (of_int (c * int (Suc k))) (replicate n (of_int c))
     = of_int (c * int (Suc k + n))"
    using Suc.prems by (intro Suc.IH) simp
  with step show ?case by simp
qed

lemma np_sum_replicate_int:
  assumes "\<bar>c\<bar> * int n < 2 ^ 53"
  shows "np_sum (replicate n (of_int c)) = of_int (c * int n)"
  using np_sum_foldl_replicate_int [of c 0 n] assms by (simp add: np_sum_def)

lemma fl64_numeral [simp]:
  "(numeral n :: int) < 2 ^ 53 \<Longrightarrow> fl64 (numeral n) = numeral n"
  "(numeral n :: int) < 2 ^ 53 \<Longrightarrow> fl64 (- numeral n) = - numeral n"
  "fl64 1 = 1"
  using fl64_of_int [of "numeral n"] fl64_of_int [of "- numeral n"] fl64_of_int [of 1]
  by simp_all

lemma fl64_down_eq:
  assumes "x = y / 2 ^ n" and "2 ^ 52 \<le> \<bar>y\<bar>" and "\<bar>y\<bar> < 2 ^ 53"
  shows "fl64 x = of_int (round_half_even y) / 2 ^ n"
  unfolding assms(1) using assms(2,3) by (rule fl64_down)

text \<open>Two rules for evaluating \<open>fl64\<close> at a given number: the number is written with an
  integer significand below \<open>2 ^ 53\<close> (and is a float), or with a significand between
  \<open>2 ^ 52\<close> and \<open>2 ^ 53\<close> that is then rounded.\<close>

lemma fl64_exactI:
  assumes "x = of_int k / 2 ^ n" and "\<bar>k\<bar> < 2 ^ 53" and "r = of_int k / 2 ^ n"
  shows "fl64 x = r"
  unfolding assms(1,3) using assms(2) by (rule fl64_of_int_div)

lemma fl64_roundI:
  assumes "x = y / 2 ^ n" and "2 ^ 52 \<le> \<bar>y\<bar>" and "\<bar>y\<bar> < 2 ^ 53"
    and "round_half_even y = k" and "r = of_int k / 2 ^ n"
  shows "fl64 x = r"
  unfolding assms(5) assms(4) [symmetric] using assms(1,2,3) by (rule fl64_down_eq)

subsection \<open>The repository resolver\<close>

lemma startswith_append [simp]: "startswith (p @ s) p"
  by (simp add: startswith_def)

lemma takeWhile_not_slash:
  "CHR ''/'' \<notin> set xs \<Longrightarrow> takeWhile not_slash (xs @ CHR ''/'' # ys) = xs"
  by (induction xs) (auto simp: not_slash_def)

lemma dropWhile_not_slash:
  "CHR ''/'' \<notin> set xs \<Longrightarrow> dropWhile not_slash (xs @ CHR ''/'' # ys) = CHR ''/'' # ys"
  by (induction xs) (auto simp: not_slash_def)

lemma takeWhile_not_slash_all:
  "CHR ''/'' \<notin> set xs \<Longrightarrow> takeWhile not_slash xs = xs"
  by (induction xs) (auto simp: not_slash_def)

lemma match_repo_url_shape:
  assumes "owner \<noteq> []" "CHR ''/'' \<notin> set owner" "seg \<noteq> []" "CHR ''/'' \<notin> set seg"
    and "rest = [] \<or> hd rest = CHR ''/''"
  shows "match_repo_url (''https://github.com/'' @ owner @ ''/'' @ seg @ rest) = Some (owner, seg)"
proof -
  have t: "takeWhile not_slash (seg @ rest) = seg"
  proof (cases rest)
    case Nil
    then show ?thesis using assms(4) by (simp add: takeWhile_not_slash_all)
  next
    case (Cons c cs)
    with assms(5) have "rest = CHR ''/'' # cs" by simp
    then show ?thesis using assms(4) by (simp add: takeWhile_not_slash)
  qed
  let ?tail = "owner @ CHR ''/'' # seg @ rest"
  have u: "''https://github.com/'' @ owner @ ''/'' @ seg @ rest = ''https://github.com/'' @ ?tail"
    by simp
  have s: "startswith (''https://github.com/'' @ ?tail) ''https://github.com/''"
    by (rule startswith_append)
  have d: "drop (length ''https://github.com/'') (''https://github.com/'' @ ?tail) = ?tail"
    by simp
  have g1: "takeWhile not_slash ?tail = owner"
    using assms(2) by (rule takeWhile_not_slash)
  have r1: "dropWhile not_slash ?tail = CHR ''/'' # seg @ rest"
    using assms(2) by (rule dropWhile_not_slash)
  show ?thesis
    unfolding u match_repo_url_def using assms(1,3)
    by (simp only: s d g1 r1 t Let_def list.sel if_True) simp
qed

lemma rstrip_slash_id: "CHR ''/'' \<notin> set s \<Longrightarrow> rstrip_slash s = s"
proof -
  assume a: "CHR ''/'' \<notin> set s"
  from a have "CHR ''/'' \<notin> set (rev s)" by simp
  then have "dropWhile (\<lambda>c. c = CHR ''/'') (rev s) = rev s"
    by (cases "rev s") auto
  then show ?thesis by (simp add: rstrip_slash_def)
qed

lemma parse_repo_url_valid:
  assumes "owner \<noteq> []" "CHR ''/'' \<notin> set owner" "repo \<noteq> []" "CHR ''/'' \<notin> set repo"
    and "\<not> endswith repo ''.git''"
  shows "parse_repo_url (''https://github.com/'' @ owner @ ''/'' @ repo
           @ (if git then ''.git'' else []) @ (if slash then ''/'' else [])) = Some (owner, repo)"
proof -
  let ?seg = "repo @ (if git then ''.git'' else [])"
  let ?rest = "if slash then ''/'' else []"
  have seg: "?seg \<noteq> []" "CHR ''/'' \<notin> set ?seg" using assms(3,4) by auto
  have rest: "?rest = [] \<or> hd ?rest = CHR ''/''" by simp
  have m: "match_repo_url (''https://github.com/'' @ owner @ ''/'' @ ?seg @ ?rest) = Some (owner, ?seg)"
    using assms(1,2) seg rest by (rule match_repo_url_shape)
  have st: "rstrip_slash ?seg = ?seg" using seg(2) by (rule rstrip_slash_id)
  have "suffix ''.git'' (repo @ ''.git'')" by (rule suffixI) simp
  then have e: "(if endswith ?seg ''.git'' then take (length ?seg - 4) ?seg else ?seg) = repo"
    using assms(5) by (simp add: endswith_def)
  have u: "''https://github.com/'' @ owner @ ''/'' @ repo
           @ (if git then ''.git'' else []) @ (if slash then ''/'' else [])
      = ''https://github.com/'' @ owner @ ''/'' @ ?seg @ ?rest"
    by simp
  show ?thesis
    unfolding u parse_repo_url_def
    by (simp only: m option.case prod.case Let_def st e)
qed

lemma sublist_iff_take_drop:
  "sublist p s \<longleftrightarrow> (\<exists>i\<le>length s. take (length p) (drop i s) = p)"
proof
  assume "sublist p s"
  then obtain ps ss where s: "s = ps @ p @ ss" by (auto simp: sublist_def)
  have "take (length p) (drop (length ps) s) = p" by (simp add: s)
  moreover have "length ps \<le> length s" by (simp add: s)
  ultimately show "\<exists>i\<le>length s. take (length p) (drop i s) = p" by blast
next
  assume "\<exists>i\<le>length s. take (length p) (drop i s) = p"
  then obtain i where p: "take (length p) (drop i s) = p" by blast
  have "drop i s = take (length p) (drop i s) @ drop (length p) (drop i s)"
    by (simp only: append_take_drop_id)
  then have "s = take i s @ take (length p) (drop i s) @ drop (length p) (drop i s)"
    by (metis append_take_drop_id)
  then have "s = take i s @ p @ drop (length p) (drop i s)"
    by (simp only: p)
  then show "sublist p s" unfolding sublist_def by blast
qed


lemma any_case_upper: "(65 \<le> n \<and> n \<le> 90) \<or> (192 \<le> n \<and> n \<le> 222 \<and> n \<noteq> 215) \<Longrightarrow> m < 128 \<Longrightarrow> \<not>(65 \<le> m \<and> m \<le> 90) \<Longrightarrow> (n = m \<or> (97 \<le> m \<and> m \<le> 122 \<and> n + 32 = m)) \<longleftrightarrow> n + 32 = (m::nat)"
  by presburger

lemma any_case_other: "\<not> ((65 \<le> n \<and> n \<le> 90) \<or> (192 \<le> n \<and> n \<le> 222 \<and> n \<noteq> 215)) \<Longrightarrow> (n = m \<or> (97 \<le> m \<and> m \<le> 122 \<and> n + 32 = m)) \<longleftrightarrow> n = (m::nat)"
  by presburger

lemma lower_char_eq_plain:
  assumes "plain d"
  shows "lower_char c = d \<longleftrightarrow> any_case c d"
proof -
  obtain n where n: "n = (of_char c :: nat)" by simp
  obtain m where m: "m = (of_char d :: nat)" by simp
  have nb: "n < 256" unfolding n by simp
  have cd: "c = d \<longleftrightarrow> n = m" unfolding n m by simp
  have up: "char_of (n + 32) = d \<longleftrightarrow> (n + 32) mod 256 = m"
    unfolding m by (metis of_char_of char_of_char)
  have pl: "m < 128" "\<not> (65 \<le> m \<and> m \<le> 90)"
    using assms unfolding plain_def m by simp_all
  have ac: "any_case c d \<longleftrightarrow> (n = m \<or> (97 \<le> m \<and> m \<le> 122 \<and> n + 32 = m))"
    unfolding any_case_def cd n m ..
  have lc: "lower_char c =
      (if (65 \<le> n \<and> n \<le> 90) \<or> (192 \<le> n \<and> n \<le> 222 \<and> n \<noteq> 215)
       then char_of (n + 32) else c)"
    unfolding lower_char_def Let_def n ..
  show ?thesis
  proof (cases "(65 \<le> n \<and> n \<le> 90) \<or> (192 \<le> n \<and> n \<le> 222 \<and> n \<noteq> 215)")
    case True
    then have "n + 32 < 256" by arith
    then have md: "(n + 32) mod 256 = n + 32" by simp
    have l: "lower_char c = char_of (n + 32)"
      using True by (simp only: lc if_True)
    have e: "(n = m \<or> (97 \<le> m \<and> m \<le> 122 \<and> n + 32 = m)) \<longleftrightarrow> n + 32 = m"
      using True pl by (rule any_case_upper)
    have "lower_char c = d \<longleftrightarrow> n + 32 = m"
      by (simp only: l up md)
    also have "\<dots> \<longleftrightarrow> any_case c d"
      by (simp only: ac e)
    finally show ?thesis .
  next
    case False
    then have l: "lower_char c = c"
      by (simp only: lc if_False)
    have e: "(n = m \<or> (97 \<le> m \<and> m \<le> 122 \<and> n + 32 = m)) \<longleftrightarrow> n = m"
      using False by (rule any_case_other)
    have "lower_char c = d \<longleftrightarrow> n = m"
      by (simp only: l cd)
    also have "\<dots> \<longleftrightarrow> any_case c d"
      by (simp only: ac e)
    finally show ?thesis .
  qed
qed

lemma map_lower_plain:
  "\<forall>d\<in>set t. plain d \<Longrightarrow> map lower_char w = t \<longleftrightarrow> list_all2 any_case w t"
proof (induction w arbitrary: t)
  case Nil
  then show ?case by auto
next
  case (Cons c w)
  show ?case
  proof (cases t)
    case Nil
    then show ?thesis by simp
  next
    case (Cons d t')
    with Cons.prems have "plain d" and "\<forall>d\<in>set t'. plain d" by simp_all
    then show ?thesis
      using Cons.IH [of t'] by (simp add: Cons lower_char_eq_plain)
  qed
qed

lemma contains_lower_rate_limit:
  "contains (lower msg) ''rate limit'' \<longleftrightarrow> mentions_rate_limit msg"
proof -
  have pl: "\<forall>d\<in>set ''rate limit''. plain d" by (simp add: plain_def)
  have "contains (lower msg) ''rate limit''
      \<longleftrightarrow> (\<exists>i\<le>length msg. map lower_char (take 10 (drop i msg)) = ''rate limit'')"
    unfolding contains_def lower_def sublist_iff_take_drop
    by (simp add: take_map drop_map del: take_Suc_Cons) (simp add: numeral_eq_Suc)
  also have "\<dots> \<longleftrightarrow> mentions_rate_limit msg"
    unfolding mentions_rate_limit_def map_lower_plain [OF pl] by auto
  finally show ?thesis .
qed

lemma match_repo_url_SomeD:
  assumes "match_repo_url addr = Some (g1, g2)"
  shows "\<exists>rest. addr = ''https://github.com/'' @ g1 @ ''/'' @ g2 @ rest
     \<and> g1 \<noteq> [] \<and> g2 \<noteq> [] \<and> CHR ''/'' \<notin> set g1 \<and> CHR ''/'' \<notin> set g2"
proof -
  let ?base = "''https://github.com/''"
  from assms have st: "startswith addr ?base"
    unfolding match_repo_url_def by (simp split: if_splits)
  then obtain rest where u: "addr = ?base @ rest"
    unfolding startswith_def prefix_def by blast
  have d: "drop (length ?base) addr = rest" unfolding u by simp
  let ?r1 = "dropWhile not_slash rest"
  from assms st have g1: "g1 = takeWhile not_slash rest" and ne1: "g1 \<noteq> []"
    and r1: "?r1 \<noteq> []" and g2: "g2 = takeWhile not_slash (tl ?r1)" and ne2: "g2 \<noteq> []"
    unfolding match_repo_url_def Let_def d by (auto split: if_splits)
  from r1 have "\<not> not_slash (hd ?r1)" by (rule hd_dropWhile)
  then have "hd ?r1 = CHR ''/''" by (simp add: not_slash_def)
  with r1 obtain t1 where r1': "?r1 = CHR ''/'' # t1" by (cases ?r1) auto
  have g2': "g2 = takeWhile not_slash t1" using g2 unfolding r1' by simp
  have e1: "g1 @ CHR ''/'' # t1 = rest"
    using takeWhile_dropWhile_id [of not_slash rest] unfolding g1 [symmetric] r1' .
  have e2: "g2 @ dropWhile not_slash t1 = t1"
    using takeWhile_dropWhile_id [of not_slash t1] unfolding g2' [symmetric] .
  have "?base @ g1 @ ''/'' @ g2 @ dropWhile not_slash t1 = ?base @ g1 @ CHR ''/'' # t1"
    by (simp add: e2)
  also have "\<dots> = addr" unfolding u e1 ..
  finally have "addr = ?base @ g1 @ ''/'' @ g2 @ dropWhile not_slash t1" by (rule sym)
  moreover have "CHR ''/'' \<notin> set g1" unfolding g1
    by (metis not_slash_def set_takeWhileD)
  moreover have "CHR ''/'' \<notin> set g2" unfolding g2
    by (metis not_slash_def set_takeWhileD)
  ultimately show ?thesis using ne1 ne2 by blast
qed

lemma match_repo_url_prefix:
  assumes "owner \<noteq> []" "CHR ''/'' \<notin> set owner" "repo \<noteq> []" "CHR ''/'' \<notin> set repo"
  shows "match_repo_url (''https://github.com/'' @ owner @ ''/'' @ repo @ rest) \<noteq> None"
proof -
  let ?tail = "owner @ CHR ''/'' # repo @ rest"
  have u: "''https://github.com/'' @ owner @ ''/'' @ repo @ rest = ''https://github.com/'' @ ?tail"
    by simp
  have s: "startswith (''https://github.com/'' @ ?tail) ''https://github.com/''"
    by (rule startswith_append)
  have d: "drop (length ''https://github.com/'') (''https://github.com/'' @ ?tail) = ?tail"
    by simp
  have g1: "takeWhile not_slash ?tail = owner"
    using assms(2) by (rule takeWhile_not_slash)
  have r1: "dropWhile not_slash ?tail = CHR ''/'' # repo @ rest"
    using assms(2) by (rule dropWhile_not_slash)
  from assms(3,4) have "not_slash (hd repo)" by (cases repo) (auto simp: not_slash_def)
  with assms(3) have g2: "takeWhile not_slash (repo @ rest) \<noteq> []"
    by (cases repo) auto
  show ?thesis
    unfolding u match_repo_url_def using assms(1) g2
    by (simp only: s d g1 r1 Let_def list.sel if_True) simp
qed

lemma has_repo_prefix_iff: "has_repo_prefix addr \<longleftrightarrow> match_repo_url addr \<noteq> None"
proof
  assume "has_repo_prefix addr"
  then show "match_repo_url addr \<noteq> None"
    unfolding has_repo_prefix_def using match_repo_url_prefix by blast
next
  assume "match_repo_url addr \<noteq> None"
  then obtain g1 g2 where "match_repo_url addr = Some (g1, g2)" by auto
  from match_repo_url_SomeD [OF this] show "has_repo_prefix addr"
    unfolding has_repo_prefix_def by blast
qed

lemma parse_repo_url_None_iff: "parse_repo_url addr = None \<longleftrightarrow> \<not> has_repo_prefix addr"
  unfolding has_repo_prefix_iff parse_repo_url_def
  by (simp add: Let_def split: option.splits)

lemma mentions_rate_limit_length: "mentions_rate_limit msg \<Longrightarrow> 10 \<le> length msg"
proof -
  assume "mentions_rate_limit msg"
  then obtain i where "list_all2 any_case (take 10 (drop i msg)) ''rate limit''"
    unfolding mentions_rate_limit_def by blast
  then have "length (take 10 (drop i msg)) = length ''rate limit''"
    by (rule list_all2_lengthD)
  then show ?thesis by simp
qed

text \<open>C2: the outcomes of \<open>extract_repo_info\<close>. A text that does not match the
  \<open>https://github.com/<owner>/<repo>\<close> prefix raises the validation error, and no request
  has been made. A text that matches parses to an owner and a repository name, and one
  request is made. Of its reply: status 404 raises the not-found error naming owner and
  repository; status 401 or 403 with a message that mentions \<open>rate limit\<close> in some letter
  case raises the permission error about the rate limit, and with another message the
  generic permission error (the message is the text that the code takes from the body: the
  \<open>message\<close> member, or the empty text where the body has none); any other status but 200
  raises the API error with the status code and the first 200 characters of the body at
  most; status 200 returns the pair of owner and repository name.\<close>

theorem extract_repo_info_outcomes:
  "(\<not> has_repo_prefix addr \<longrightarrow> extract_repo_info w addr token = (Inl ValueError, []))
   \<and> (has_repo_prefix addr \<longrightarrow> (\<exists>owner repo. parse_repo_url addr = Some (owner, repo)))
   \<and> (parse_repo_url addr = Some (owner, repo) \<longrightarrow>
        snd (extract_repo_info w addr token)
          = [''https://api.github.com/repos/'' @ owner @ ''/'' @ repo])
   \<and> (parse_repo_url addr = Some (owner, repo)
        \<and> repo_endpoint w (''https://api.github.com/repos/'' @ owner @ ''/'' @ repo)
              (repo_headers token) = Reply code body \<longrightarrow>
       (code = 404 \<longrightarrow>
          fst (extract_repo_info w addr token) = Inl (RepoNotFoundError owner repo))
       \<and> ((code = 401 \<or> code = 403) \<and> body_message body = JString msg
            \<and> mentions_rate_limit msg \<longrightarrow>
          fst (extract_repo_info w addr token) = Inl (RepoPermissionError RateLimit))
       \<and> ((code = 401 \<or> code = 403) \<and> body_message body = JString msg
            \<and> \<not> mentions_rate_limit msg \<longrightarrow>
          fst (extract_repo_info w addr token) = Inl (RepoPermissionError NoAccess))
       \<and> (code \<notin> {200, 401, 403, 404} \<longrightarrow>
          fst (extract_repo_info w addr token)
            = Inl (RuntimeError code (take 200 (body_text body)))
          \<and> length (take 200 (body_text body)) \<le> 200)
       \<and> (code = 200 \<longrightarrow> fst (extract_repo_info w addr token) = Inr (owner, repo)))"
proof -
  have invalid: "extract_repo_info w addr token = (Inl ValueError, [])"
    if "\<not> has_repo_prefix addr"
    using that by (simp add: extract_repo_info_def parse_repo_url_None_iff [symmetric])
  have valid: "\<exists>owner repo. parse_repo_url addr = Some (owner, repo)"
    if "has_repo_prefix addr"
    using that parse_repo_url_None_iff [of addr] by auto
  have replied: "(code = 404 \<longrightarrow>
          fst (extract_repo_info w addr token) = Inl (RepoNotFoundError owner repo))
       \<and> ((code = 401 \<or> code = 403) \<and> body_message body = JString msg
            \<and> mentions_rate_limit msg \<longrightarrow>
          fst (extract_repo_info w addr token) = Inl (RepoPermissionError RateLimit))
       \<and> ((code = 401 \<or> code = 403) \<and> body_message body = JString msg
            \<and> \<not> mentions_rate_limit msg \<longrightarrow>
          fst (extract_repo_info w addr token) = Inl (RepoPermissionError NoAccess))
       \<and> (code \<notin> {200, 401, 403, 404} \<longrightarrow>
          fst (extract_repo_info w addr token)
            = Inl (RuntimeError code (take 200 (body_text body)))
          \<and> length (take 200 (body_text body)) \<le> 200)
       \<and> (code = 200 \<longrightarrow> fst (extract_repo_info w addr token) = Inr (owner, repo))"
    if p: "parse_repo_url addr = Some (owner, repo)"
      and r: "repo_endpoint w (''https://api.github.com/repos/'' @ owner @ ''/'' @ repo)
              (repo_headers token) = Reply code body"
  proof -
    have e: "fst (extract_repo_info w addr token) =
       (if code = 404 then Inl (RepoNotFoundError owner repo)
        else if code = 401 \<or> code = 403 then
          (case body_message body of
             JString msg \<Rightarrow>
               if contains (lower msg) ''rate limit''
               then Inl (RepoPermissionError RateLimit)
               else Inl (RepoPermissionError NoAccess)
           | _ \<Rightarrow> Inl AttributeError)
        else if code \<noteq> 200 then Inl (RuntimeError code (take 200 (body_text body)))
        else Inr (owner, repo))"
      unfolding extract_repo_info_def p using r by (simp add: Let_def)
    show ?thesis
      unfolding e by (simp add: contains_lower_rate_limit)
  qed
  have once: "snd (extract_repo_info w addr token)
          = [''https://api.github.com/repos/'' @ owner @ ''/'' @ repo]"
    if "parse_repo_url addr = Some (owner, repo)"
    using that by (simp add: extract_repo_info_def Let_def)
  from invalid valid once replied show ?thesis by blast
qed

lemma example_parse:
  "parse_repo_url ''https://github.com/octo/hello'' = Some (''octo'', ''hello'')"
  "parse_repo_url ''https://github.com/octo/missing'' = Some (''octo'', ''missing'')"
  "parse_repo_url ''https://github.com/octo/limited'' = Some (''octo'', ''limited'')"
  "parse_repo_url ''https://github.com/octo/private'' = Some (''octo'', ''private'')"
  "parse_repo_url ''https://github.com/octo/broken'' = Some (''octo'', ''broken'')"
  using parse_repo_url_valid [of "''octo''" "''hello''" False False]
    parse_repo_url_valid [of "''octo''" "''missing''" False False]
    parse_repo_url_valid [of "''octo''" "''limited''" False False]
    parse_repo_url_valid [of "''octo''" "''private''" False False]
    parse_repo_url_valid [of "''octo''" "''broken''" False False]
  by (simp_all add: endswith_def suffix_to_prefix)

lemma example_mentions: "mentions_rate_limit ''API Rate Limit exceeded''"
  unfolding mentions_rate_limit_def
  by (rule bexI [of _ 4]) (simp_all add: any_case_def)

lemma example_not_mentions: "\<not> mentions_rate_limit []"
  using mentions_rate_limit_length [of "[]"] by auto

theorem extract_repo_info_outcomes_witness:
  "extract_repo_info example_github ''github.com/octo/hello'' None = (Inl ValueError, [])
   \<and> fst (extract_repo_info example_github ''https://github.com/octo/missing'' None)
       = Inl (RepoNotFoundError ''octo'' ''missing'')
   \<and> fst (extract_repo_info example_github ''https://github.com/octo/limited'' None)
       = Inl (RepoPermissionError RateLimit)
   \<and> fst (extract_repo_info example_github ''https://github.com/octo/private'' None)
       = Inl (RepoPermissionError NoAccess)
   \<and> fst (extract_repo_info example_github ''https://github.com/octo/broken'' None)
       = Inl (RuntimeError 500 ''Server Error'')
   \<and> fst (extract_repo_info example_github ''https://github.com/octo/hello'' None)
       = Inr (''octo'', ''hello'')
   \<and> snd (extract_repo_info example_github ''https://github.com/octo/hello'' None)
       = [''https://api.github.com/repos/octo/hello'']"
proof -
  have n: "\<not> has_repo_prefix ''github.com/octo/hello''"
    by (auto simp: has_repo_prefix_def)
  have 1: "extract_repo_info example_github ''github.com/octo/hello'' None = (Inl ValueError, [])"
    using extract_repo_info_outcomes [of "''github.com/octo/hello''" example_github None] n
    by blast
  have e2: "repo_endpoint example_github
      (''https://api.github.com/repos/'' @ ''octo'' @ ''/'' @ ''missing'') (repo_headers None)
      = Reply 404 \<lparr>json_body = Some (JObject [(''message'', JString ''Not Found'')]),
                        body_text = ''Not Found''\<rparr>"
    by (simp add: example_github_def)
  have 2: "fst (extract_repo_info example_github ''https://github.com/octo/missing'' None)
       = Inl (RepoNotFoundError ''octo'' ''missing'')"
    using extract_repo_info_outcomes [of "''https://github.com/octo/missing''" example_github
        None "''octo''" "''missing''" 404] example_parse(2) e2
    by blast
  have e3: "repo_endpoint example_github
      (''https://api.github.com/repos/'' @ ''octo'' @ ''/'' @ ''limited'') (repo_headers None)
      = Reply 403 \<lparr>json_body =
                          Some (JObject [(''message'', JString ''API Rate Limit exceeded'')]),
                        body_text = ''API Rate Limit exceeded''\<rparr>"
    by (simp add: example_github_def)
  have m3: "body_message \<lparr>json_body =
                          Some (JObject [(''message'', JString ''API Rate Limit exceeded'')]),
                        body_text = ''API Rate Limit exceeded''\<rparr>
      = JString ''API Rate Limit exceeded''"
    by (simp add: body_message_def)
  have 3: "fst (extract_repo_info example_github ''https://github.com/octo/limited'' None)
       = Inl (RepoPermissionError RateLimit)"
    using extract_repo_info_outcomes [of "''https://github.com/octo/limited''" example_github
        None "''octo''" "''limited''" 403 _ "''API Rate Limit exceeded''"]
      example_parse(3) e3 m3 example_mentions
    by blast
  have e4: "repo_endpoint example_github
      (''https://api.github.com/repos/'' @ ''octo'' @ ''/'' @ ''private'') (repo_headers None)
      = Reply 401 \<lparr>json_body = None, body_text = ''Unauthorized''\<rparr>"
    by (simp add: example_github_def)
  have m4: "body_message \<lparr>json_body = None, body_text = ''Unauthorized''\<rparr> = JString []"
    by (simp add: body_message_def)
  have 4: "fst (extract_repo_info example_github ''https://github.com/octo/private'' None)
       = Inl (RepoPermissionError NoAccess)"
    using extract_repo_info_outcomes [of "''https://github.com/octo/private''" example_github
        None "''octo''" "''private''" 401 _ "[]"]
      example_parse(4) e4 m4 example_not_mentions
    by blast
  have e5: "repo_endpoint example_github
      (''https://api.github.com/repos/'' @ ''octo'' @ ''/'' @ ''broken'') (repo_headers None)
      = Reply 500 \<lparr>json_body = None, body_text = ''Server Error''\<rparr>"
    by (simp add: example_github_def)
  have s5: "(500::int) \<notin> {200, 401, 403, 404}" by simp
  have "fst (extract_repo_info example_github ''https://github.com/octo/broken'' None)
       = Inl (RuntimeError 500 (take 200 (body_text \<lparr>json_body = None, body_text = ''Server Error''\<rparr>)))"
    using extract_repo_info_outcomes [of "''https://github.com/octo/broken''" example_github
        None "''octo''" "''broken''" 500]
      example_parse(5) e5 s5
    by blast
  then have 5: "fst (extract_repo_info example_github ''https://github.com/octo/broken'' None)
       = Inl (RuntimeError 500 ''Server Error'')"
    by simp
  have e6: "repo_endpoint example_github
      (''https://api.github.com/repos/'' @ ''octo'' @ ''/'' @ ''hello'') (repo_headers None)
      = Reply 200 \<lparr>json_body = Some (JObject []), body_text = ''{}''\<rparr>"
    by (simp add: example_github_def)
  have 6: "fst (extract_repo_info example_github ''https://github.com/octo/hello'' None)
       = Inr (''octo'', ''hello'')"
    using extract_repo_info_outcomes [of "''https://github.com/octo/hello''" example_github
        None "''octo''" "''hello''" 200]
      example_parse(1) e6
    by blast
  have "snd (extract_repo_info example_github ''https://github.com/octo/hello'' None)
       = [''https://api.github.com/repos/'' @ ''octo'' @ ''/'' @ ''hello'']"
    using extract_repo_info_outcomes [of "''https://github.com/octo/hello''" example_github
        None "''octo''" "''hello''"]
      example_parse(1)
    by blast
  then have 7: "snd (extract_repo_info example_github ''https://github.com/octo/hello'' None)
       = [''https://api.github.com/repos/octo/hello'']"
    by simp
  from 1 2 3 4 5 6 7 show ?thesis by blast
qed

text \<open>C9: for a valid address, that is \<open>https://github.com/\<close>, an owner, a \<open>/\<close> and a
  repository name (both non-empty and free of \<open>/\<close>; the name itself does not end in
  \<open>.git\<close>, as no repository name on GitHub does), optionally followed by \<open>.git\<close> and then
  optionally by a \<open>/\<close>, the resolver parses out exactly owner and name, suffix and slash
  removed: it asks for that repository, and returns that pair when the reply is 200.\<close>

theorem extract_repo_info_valid_url:
  assumes "owner \<noteq> []" "CHR ''/'' \<notin> set owner" "repo \<noteq> []" "CHR ''/'' \<notin> set repo"
    and "\<not> endswith repo ''.git''"
    and "addr = ''https://github.com/'' @ owner @ ''/'' @ repo
           @ (if git then ''.git'' else []) @ (if slash then ''/'' else [])"
  shows "parse_repo_url addr = Some (owner, repo)
     \<and> snd (extract_repo_info w addr token)
         = [''https://api.github.com/repos/'' @ owner @ ''/'' @ repo]
     \<and> (repo_endpoint w (''https://api.github.com/repos/'' @ owner @ ''/'' @ repo)
            (repo_headers token) = Reply 200 body
          \<longrightarrow> fst (extract_repo_info w addr token) = Inr (owner, repo))"
proof -
  have p: "parse_repo_url addr = Some (owner, repo)"
    unfolding assms(6) using assms(1-5) by (rule parse_repo_url_valid)
  then show ?thesis
    by (simp add: extract_repo_info_def Let_def)
qed

theorem extract_repo_info_valid_url_witness:
  "parse_repo_url ''https://github.com/octo/hello.git/'' = Some (''octo'', ''hello'')
   \<and> parse_repo_url ''https://github.com/octo/hello/'' = Some (''octo'', ''hello'')
   \<and> parse_repo_url ''https://github.com/octo/hello.git'' = Some (''octo'', ''hello'')
   \<and> snd (extract_repo_info example_github ''https://github.com/octo/hello.git/'' None)
       = [''https://api.github.com/repos/octo/hello'']
   \<and> fst (extract_repo_info example_github ''https://github.com/octo/hello.git/'' None)
       = Inr (''octo'', ''hello'')"
proof -
  have h: "''octo'' \<noteq> []" "CHR ''/'' \<notin> set ''octo''" "''hello'' \<noteq> []"
    "CHR ''/'' \<notin> set ''hello''" "\<not> endswith ''hello'' ''.git''"
    by (simp_all add: endswith_def suffix_to_prefix)
  have e: "repo_endpoint example_github
      (''https://api.github.com/repos/'' @ ''octo'' @ ''/'' @ ''hello'') (repo_headers None)
      = Reply 200 \<lparr>json_body = Some (JObject []), body_text = ''{}''\<rparr>"
    by (simp add: example_github_def)
  have a: "''https://github.com/octo/hello.git/'' = ''https://github.com/'' @ ''octo'' @ ''/''
       @ ''hello'' @ (if True then ''.git'' else []) @ (if True then ''/'' else [])"
    and b: "''https://github.com/octo/hello/'' = ''https://github.com/'' @ ''octo'' @ ''/''
       @ ''hello'' @ (if False then ''.git'' else []) @ (if True then ''/'' else [])"
    and c: "''https://github.com/octo/hello.git'' = ''https://github.com/'' @ ''octo'' @ ''/''
       @ ''hello'' @ (if True then ''.git'' else []) @ (if False then ''/'' else [])"
    by simp_all
  from extract_repo_info_valid_url [OF h a, of example_github None] e
  have "parse_repo_url ''https://github.com/octo/hello.git/'' = Some (''octo'', ''hello'')"
    and "snd (extract_repo_info example_github ''https://github.com/octo/hello.git/'' None)
       = [''https://api.github.com/repos/'' @ ''octo'' @ ''/'' @ ''hello'']"
    and "fst (extract_repo_info example_github ''https://github.com/octo/hello.git/'' None)
       = Inr (''octo'', ''hello'')"
    by blast+
  moreover from extract_repo_info_valid_url [OF h b]
  have "parse_repo_url ''https://github.com/octo/hello/'' = Some (''octo'', ''hello'')"
    by blast
  moreover from extract_repo_info_valid_url [OF h c]
  have "parse_repo_url ''https://github.com/octo/hello.git'' = Some (''octo'', ''hello'')"
    by blast
  ultimately show ?thesis by simp
qed

subsection \<open>Coding time\<close>

lemma py_int_minutes:
  assumes "0 \<le> d"
  shows "py_int (total_seconds d / 60) = d div 60000000"
proof -
  have "total_seconds d / 60 = of_int d / of_int 60000000"
    by (simp add: total_seconds_def)
  moreover have "(0::rat) \<le> of_int d / of_int 60000000" using assms by simp
  ultimately show ?thesis
    unfolding py_int_def by (simp only: if_True floor_divide_of_int_eq)
qed

lemma str_int_examples:
  "str_int 0 = ''0''" "str_int 1 = ''1''" "str_int 150 = ''150''"
  by (simp_all add: str_int_def str_nat.simps digit_char_def)

text \<open>C8: for two timestamps with \<open>first_date \<le> last_date\<close>, \<open>calculate_duration\<close> returns
  the decimal numeral of \<open>N\<close> followed by the minute mark, where \<open>N\<close> is the number of
  seconds between them divided by 60 with the fraction cut off: \<open>N\<close> is the whole number
  with \<open>N \<le> seconds / 60 < N + 1\<close>. Equal timestamps give 0, a span of 150 minutes gives
  150, a span of 89.9 seconds gives 1.\<close>

theorem calculate_duration_minutes:
  assumes "first_date \<le> last_date"
  shows "calculate_duration first_date last_date
           = str_int ((last_date - first_date) div 60000000) @ minute_mark
     \<and> 0 \<le> (last_date - first_date) div 60000000
     \<and> of_int ((last_date - first_date) div 60000000)
          \<le> total_seconds (last_date - first_date) / 60
     \<and> total_seconds (last_date - first_date) / 60
          < of_int ((last_date - first_date) div 60000000) + 1
     \<and> calculate_duration first_date first_date = ''0'' @ minute_mark
     \<and> calculate_duration first_date (first_date + 150 * 60 * 1000000) = ''150'' @ minute_mark
     \<and> calculate_duration first_date (first_date + 89900000) = ''1'' @ minute_mark"
proof -
  let ?d = "last_date - first_date"
  from assms have d: "0 \<le> ?d" by simp
  have m: "py_int (total_seconds ?d / 60) = ?d div 60000000"
    using d by (rule py_int_minutes)
  have 1: "calculate_duration first_date last_date = str_int (?d div 60000000) @ minute_mark"
    by (simp add: calculate_duration_def Let_def m)
  have 2: "0 \<le> ?d div 60000000" using d by simp
  have q: "total_seconds ?d / 60 = of_int ?d / of_int 60000000"
    by (simp add: total_seconds_def)
  have "of_int \<lfloor>of_int ?d / (of_int 60000000 :: rat)\<rfloor> \<le> of_int ?d / (of_int 60000000 :: rat)"
    by (rule of_int_floor_le)
  then have 3: "of_int (?d div 60000000) \<le> total_seconds ?d / 60"
    unfolding q floor_divide_of_int_eq .
  have "of_int ?d / (of_int 60000000 :: rat) < of_int \<lfloor>of_int ?d / (of_int 60000000 :: rat)\<rfloor> + 1"
    using floor_correct [of "of_int ?d / (of_int 60000000 :: rat)"] by simp
  then have 4: "total_seconds ?d / 60 < of_int (?d div 60000000) + 1"
    unfolding q floor_divide_of_int_eq .
  have 5: "calculate_duration first_date first_date = ''0'' @ minute_mark"
    using py_int_minutes [of 0]
    by (simp add: calculate_duration_def Let_def str_int_examples)
  have 6: "calculate_duration first_date (first_date + 150 * 60 * 1000000) = ''150'' @ minute_mark"
    using py_int_minutes [of "150 * 60 * 1000000"]
    by (simp add: calculate_duration_def Let_def str_int_examples)
  have 7: "calculate_duration first_date (first_date + 89900000) = ''1'' @ minute_mark"
    using py_int_minutes [of 89900000]
    by (simp add: calculate_duration_def Let_def str_int_examples)
  from 1 2 3 4 5 6 7 show ?thesis by blast
qed

theorem calculate_duration_minutes_witness:
  "(0::int) \<le> 89900000
   \<and> calculate_duration 0 89900000 = ''1'' @ minute_mark
   \<and> calculate_duration 0 0 = ''0'' @ minute_mark
   \<and> calculate_duration 0 9000000000 = ''150'' @ minute_mark"
  using calculate_duration_minutes [of 0 89900000]
  by (simp add: str_int_def str_nat.simps digit_char_def)

subsection \<open>The commit harvester\<close>

lemma fetch_commits_files_eq:
  "fetch_commits_files directory username local_date link fs raw_data
     = raw_data @ map (record_of username local_date link) (filter (kept_file directory) fs)"
  by (induction fs arbitrary: raw_data) (simp_all add: Let_def kept_file_def record_of_def)

lemma record_of_inj: "record_of u d l f = record_of u d l g \<Longrightarrow> f = g"
  by (cases f, cases g) (simp add: record_of_def)

lemma record_of_kept:
  "record_of u d l f \<in> set (map (record_of u d l) (filter (kept_file directory) fs))
     \<longleftrightarrow> f \<in> set fs \<and> kept_file directory f"
  using record_of_inj by fastforce

text \<open>C4: for a commit that the harvester keeps (its detail arrives with status 200, its
  date shifted to UTC+9 lies in the week, and it passes the author name filter where that
  filter is on), the records appended to \<open>raw_data\<close> are those of the changed files that
  pass the rule, in order; so a changed file gets its record if and only if its path
  starts with the directory prefix, ends with \<open>.py\<close>, and its status is not \<open>removed\<close>.
  With the prefix \<open>week03/\<close>: the file \<open>src/app.py\<close> under it, that is the path
  \<open>week03/src/app.py\<close>, is kept with status \<open>modified\<close> and dropped with status
  \<open>removed\<close>; \<open>week03/app.txt\<close> is dropped whatever its status.\<close>

theorem kept_commit_file_records:
  assumes "start_filter \<le> author_date detail + nine_hours"
    and "author_date detail + nine_hours \<le> end_filter"
    and "commit_endpoint w (base_url @ ''/'' @ sha commit) hdrs = Reply 200 detail"
    and "\<not> (name_filter \<and> author_name commit \<noteq> username)"
  shows "fetch_commits_commit w base_url hdrs name_filter directory start_filter end_filter
             username commit raw_data
           = Inr (raw_data @ map (record_of username (author_date detail + nine_hours)
                                    (html_url detail))
                               (filter (kept_file directory) (files detail)))
     \<and> (\<forall>f\<in>set (files detail).
           record_of username (author_date detail + nine_hours) (html_url detail) f
             \<in> set (map (record_of username (author_date detail + nine_hours)
                            (html_url detail))
                       (filter (kept_file directory) (files detail)))
           \<longleftrightarrow> startswith (file_filename f) directory \<and> endswith (file_filename f) ''.py''
               \<and> file_status f \<noteq> ''removed'')
     \<and> kept_file ''week03/'' \<lparr>file_filename = ''week03/src/app.py'', file_status = ''modified'',
           file_changes = c, file_additions = a, file_deletions = b\<rparr>
     \<and> \<not> kept_file ''week03/'' \<lparr>file_filename = ''week03/src/app.py'', file_status = ''removed'',
           file_changes = c, file_additions = a, file_deletions = b\<rparr>
     \<and> \<not> kept_file ''week03/'' \<lparr>file_filename = ''week03/app.txt'', file_status = st,
           file_changes = c, file_additions = a, file_deletions = b\<rparr>"
proof -
  have 1: "fetch_commits_commit w base_url hdrs name_filter directory start_filter end_filter
             username commit raw_data
           = Inr (raw_data @ map (record_of username (author_date detail + nine_hours)
                                    (html_url detail))
                               (filter (kept_file directory) (files detail)))"
    using assms by (auto simp add: fetch_commits_commit_def Let_def fetch_commits_files_eq)
  have 2: "\<forall>f\<in>set (files detail).
           record_of username (author_date detail + nine_hours) (html_url detail) f
             \<in> set (map (record_of username (author_date detail + nine_hours)
                            (html_url detail))
                       (filter (kept_file directory) (files detail)))
           \<longleftrightarrow> startswith (file_filename f) directory \<and> endswith (file_filename f) ''.py''
               \<and> file_status f \<noteq> ''removed''"
    unfolding record_of_kept by (simp add: kept_file_def)
  have 3: "kept_file ''week03/'' \<lparr>file_filename = ''week03/src/app.py'', file_status = ''modified'',
           file_changes = c, file_additions = a, file_deletions = b\<rparr>"
    by (simp add: kept_file_def startswith_def endswith_def suffix_to_prefix)
  have 4: "\<not> kept_file ''week03/'' \<lparr>file_filename = ''week03/src/app.py'', file_status = ''removed'',
           file_changes = c, file_additions = a, file_deletions = b\<rparr>"
    by (simp add: kept_file_def)
  have 5: "\<not> kept_file ''week03/'' \<lparr>file_filename = ''week03/app.txt'', file_status = st,
           file_changes = c, file_additions = a, file_deletions = b\<rparr>"
    by (simp add: kept_file_def endswith_def suffix_to_prefix)
  from 1 2 3 4 5 show ?thesis by blast
qed

theorem kept_commit_file_records_witness:
  "(0::int) \<le> author_date example_detail + nine_hours
   \<and> author_date example_detail + nine_hours \<le> 604800000000
   \<and> commit_endpoint example_github
        (''https://api.github.com/repos/octo/hello/commits'' @ ''/''
           @ sha \<lparr>sha = ''c1'', author_name = ''Kim''\<rparr>) []
       = Reply 200 example_detail
   \<and> fetch_commits_commit example_github ''https://api.github.com/repos/octo/hello/commits'' []
        False ''week03/'' 0 604800000000 ''kim'' \<lparr>sha = ''c1'', author_name = ''Kim''\<rparr> []
       = Inr [record_of ''kim'' 36000000000 (Some ''https://github.com/octo/hello/commit/c1'')
                (example_files ! 1)]"
proof -
  have w1: "(0::int) \<le> author_date example_detail + nine_hours"
    and w2: "author_date example_detail + nine_hours \<le> 604800000000"
    by (simp_all add: example_detail_def nine_hours_def)
  have r: "commit_endpoint example_github
        (''https://api.github.com/repos/octo/hello/commits'' @ ''/''
           @ sha \<lparr>sha = ''c1'', author_name = ''Kim''\<rparr>) []
       = Reply 200 example_detail"
    by (simp add: example_github_def)
  have n: "\<not> (False \<and> author_name \<lparr>sha = ''c1'', author_name = ''Kim''\<rparr> \<noteq> ''kim'')"
    by simp
  have k: "filter (kept_file ''week03/'') (files example_detail) = [example_files ! 1]"
    by (simp add: example_detail_def example_files_def kept_file_def startswith_def
        endswith_def suffix_to_prefix)
  have d: "author_date example_detail + nine_hours = 36000000000"
    and h: "html_url example_detail = Some ''https://github.com/octo/hello/commit/c1''"
    by (simp_all add: example_detail_def nine_hours_def)
  from kept_commit_file_records [OF w1 w2 r n, where directory = "''week03/''"
      and raw_data = "[]"]
  have "fetch_commits_commit example_github ''https://api.github.com/repos/octo/hello/commits'' []
        False ''week03/'' 0 604800000000 ''kim'' \<lparr>sha = ''c1'', author_name = ''Kim''\<rparr> []
       = Inr ([] @ map (record_of ''kim'' (author_date example_detail + nine_hours)
                    (html_url example_detail))
               (filter (kept_file ''week03/'') (files example_detail)))"
    by blast
  then have "fetch_commits_commit example_github ''https://api.github.com/repos/octo/hello/commits'' []
        False ''week03/'' 0 604800000000 ''kim'' \<lparr>sha = ''c1'', author_name = ''Kim''\<rparr> []
       = Inr [record_of ''kim'' 36000000000 (Some ''https://github.com/octo/hello/commit/c1'')
                (example_files ! 1)]"
    unfolding k d h by simp
  with w1 w2 r show ?thesis by blast
qed

lemma fetch_commits_page_append:
  "fetch_commits_page w base_url hdrs nf directory s e u (xs @ ys) raw_data =
     (case fetch_commits_page w base_url hdrs nf directory s e u xs raw_data of
        Inl err \<Rightarrow> Inl err
      | Inr raw_data' \<Rightarrow> fetch_commits_page w base_url hdrs nf directory s e u ys raw_data')"
  by (induction xs arbitrary: raw_data) (auto split: sum.splits)

lemma fetch_commits_loop_pages:
  assumes "\<forall>i<length pages.
      commits_endpoint w base_url hdrs (ps\<lparr>page := Some (pg + i)\<rparr>) = Reply 200 (pages ! i)
      \<and> pages ! i \<noteq> []"
    and "commits_endpoint w base_url hdrs (ps\<lparr>page := Some (pg + length pages)\<rparr>) = Reply 200 []"
  shows "fetch_commits_loop w base_url hdrs ps directory s e u pg raw_data =
     (case fetch_commits_page w base_url hdrs (author ps = None) directory s e u
             (concat pages) raw_data of
        Inl err \<Rightarrow> Some (Inl err)
      | Inr raw_data' \<Rightarrow> Some (Inr raw_data'))"
  using assms
proof (induction pages arbitrary: pg raw_data)
  case Nil
  then show ?case by (simp add: fetch_commits_loop.simps)
next
  case (Cons p pages)
  from Cons.prems(1) have p: "commits_endpoint w base_url hdrs (ps\<lparr>page := Some pg\<rparr>) = Reply 200 p"
    and ne: "p \<noteq> []" by force+
  have rest: "\<forall>i<length pages.
      commits_endpoint w base_url hdrs (ps\<lparr>page := Some (Suc pg + i)\<rparr>) = Reply 200 (pages ! i)
      \<and> pages ! i \<noteq> []"
  proof (intro allI impI)
    fix i assume "i < length pages"
    then have "Suc i < length (p # pages)" by simp
    from Cons.prems(1) [rule_format, OF this] show
      "commits_endpoint w base_url hdrs (ps\<lparr>page := Some (Suc pg + i)\<rparr>) = Reply 200 (pages ! i)
      \<and> pages ! i \<noteq> []" by simp
  qed
  have last: "commits_endpoint w base_url hdrs (ps\<lparr>page := Some (Suc pg + length pages)\<rparr>) = Reply 200 []"
    using Cons.prems(2) by simp
  note IH = Cons.IH [OF rest last]
  show ?case
    by (subst fetch_commits_loop.simps)
      (simp add: p ne IH fetch_commits_page_append split: sum.splits)
qed

subsection \<open>The report builder\<close>

lemma length_z_scores: "length (z_scores xs) = length xs"
  by (simp add: z_scores_def Let_def)

lemma length_save_dataframe_as_html: "length (save_dataframe_as_html df) = length df"
  by (simp add: save_dataframe_as_html_def Let_def length_z_scores)

lemma nth_save_dataframe_as_html:
  assumes "i < length df"
  shows "save_dataframe_as_html df ! i =
     grade_row (df ! i)
       (z_scores (map (\<lambda>r. float64_of_int (commit_count r)) df) ! i)
       (z_scores (map (\<lambda>r. float_of_decimal (avg_changes r)) df) ! i)
       (z_scores (map (\<lambda>r. float64_of_int (parse_minutes (coding_time r))) df) ! i)"
  using assms by (simp add: save_dataframe_as_html_def Let_def length_z_scores)

text \<open>A column of one and the same integer: as long as the sum of the column stays below
  \<open>2 ^ 53\<close> every step is exact, the standard deviation is 0 and the guard gives zeros.\<close>

lemma np_std_const_int:
  assumes "\<forall>x\<in>set xs. x = of_int c" and "\<bar>c\<bar> * int (length xs) < 2 ^ 53"
  shows "np_std xs = 0"
proof (cases "xs = []")
  case True
  then show ?thesis by (simp add: np_std_def np_var_def np_sum_def fl64_0)
next
  case False
  define n where "n = length xs"
  have n: "0 < n" using False by (simp add: n_def)
  from assms(1) have xs: "xs = replicate n (of_int c)"
    by (simp add: n_def replicate_length_same)
  have s: "np_sum xs = of_int (c * int n)"
    unfolding xs using assms(2) by (intro np_sum_replicate_int) (simp add: n_def)
  have "\<bar>c\<bar> * 1 \<le> \<bar>c\<bar> * int n"
    using n by (intro mult_left_mono) simp_all
  with assms(2) have c: "\<bar>c\<bar> < 2 ^ 53" by (simp add: n_def)
  have "real_of_int (c * int n) / real n = of_int c" using n by simp
  then have m: "fl64 (np_sum xs / real (length xs)) = of_int c"
    unfolding s using fl64_of_int [OF c] by (simp only: n_def)
  have z: "np_sum (replicate n 0) = 0"
    using np_sum_replicate_int [of 0 n] by simp
  have "map (\<lambda>v. fl64 (v * v)) (map (\<lambda>v. fl64 (v - of_int c)) xs) = replicate n 0"
    by (subst xs) (simp add: fl64_0)
  then have "np_var xs = 0"
    unfolding np_var_def Let_def m by (simp add: z fl64_0)
  then show ?thesis by (simp add: np_std_def fl64_0)
qed

lemma z_scores_const_int:
  assumes "\<forall>x\<in>set xs. x = of_int c" and "\<bar>c\<bar> * int (length xs) < 2 ^ 53"
  shows "z_scores xs = replicate (length xs) 0"
  using np_std_const_int [OF assms] by (simp add: z_scores_def Let_def)

lemma np_round2_0: "np_round2 0 = 0"
  by (simp add: np_round2_def fl64_0 round_half_even_def)

lemma np_round2_1: "np_round2 1 = 1"
  by (simp add: np_round2_def round_half_even_def)

lemma final_grade_cases:
  "final_grade n = (if n \<ge> 3 then ''fail'' else if n \<ge> 1 then ''warning'' else ''success'')"
  by (simp add: final_grade_def)

lemma grade_row_outlier_count:
  "0 \<le> outlier_count (grade_row r a b c) \<and> outlier_count (grade_row r a b c) \<le> 4"
  by (simp add: grade_row_def Let_def astype_int_def)

lemma grade_row_result:
  "result (grade_row r a b c) = final_grade (outlier_count (grade_row r a b c))"
  by (simp add: grade_row_def Let_def)

lemma grade_row_provisional: "grade_row (r\<lparr>result := p\<rparr>) a b c = grade_row r a b c"
  by (simp add: grade_row_def Let_def)

lemma save_dataframe_as_html_provisional:
  "save_dataframe_as_html (map (\<lambda>r. r\<lparr>result := p r\<rparr>) df) = save_dataframe_as_html df"
  by (simp add: save_dataframe_as_html_def Let_def o_def zip_map1 grade_row_provisional
      case_prod_unfold)

text \<open>The column 1, 7, 7, 9: mean 6, standard deviation 3, and the z-scores are the floats
  nearest to \<open>-5/3\<close>, \<open>1/3\<close>, \<open>1/3\<close> and 1.\<close>

lemma z_scores_example:
  "z_scores [1, 7, 7, 9]
     = [- (7505999378950827 / 2 ^ 52), 6004799503160661 / 2 ^ 54,
        6004799503160661 / 2 ^ 54, 1]"
proof -
  have s: "np_sum [1, 7, 7, 9] = 24" by (simp add: np_sum_def)
  have m: "np_mean [1, 7, 7, 9] = 6" by (simp add: np_mean_def s)
  have q: "np_sum [25, 1, 1, 9] = 36" by (simp add: np_sum_def)
  have "np_var [1, 7, 7, 9] = 9"
    by (simp add: np_var_def s q)
  then have d: "np_std [1, 7, 7, 9] = 3"
    by (simp add: np_std_def real_sqrt_unique)
  have "fl64 (- 5 / 3) = of_int (round_half_even (- 22517998136852480 / 3)) / 2 ^ 52"
    by (rule fl64_down_eq) simp_all
  also have "round_half_even (- 22517998136852480 / 3) = - 7505999378950827"
    by (simp add: round_half_even_def)
  finally have "fl64 (- 5 / 3) = of_int (- 7505999378950827) / 2 ^ 52" .
  then have a: "fl64 (- (5 / 3)) = - (7505999378950827 / 2 ^ 52)"
    by (simp only: of_int_minus of_int_numeral minus_divide_left)
  have "fl64 (1 / 3) = of_int (round_half_even (18014398509481984 / 3)) / 2 ^ 54"
    by (rule fl64_down_eq) simp_all
  also have "round_half_even (18014398509481984 / 3) = 6004799503160661"
    by (simp add: round_half_even_def)
  finally have b: "fl64 (1 / 3) = 6004799503160661 / 2 ^ 54"
    by (simp only: of_int_numeral)
  have z: "z_scores [1, 7, 7, 9]
      = [fl64 (- (5 / 3)), fl64 (1 / 3), fl64 (1 / 3), fl64 1]"
    by (simp add: z_scores_def m d)
  show ?thesis
    unfolding z a b by simp
qed

lemma parse_minutes_examples:
  "parse_minutes ''1'' = 1" "parse_minutes ''7'' = 7" "parse_minutes ''9'' = 9"
  "parse_minutes (CHR ''3'' # CHR ''0'' # minute_mark) = 30"
  by (simp_all add: parse_minutes_def is_digit_def int_of_digits_def digit_val_def
      minute_mark_def)

lemma save_example:
  "map outlier_count (save_dataframe_as_html example_table) = [3, 0, 1, 0]"
proof -
  have c: "z_scores [2, 2, 2, 2] = [0, 0, 0, 0]"
    using z_scores_const_int [of "[2, 2, 2, 2]" 2] by (simp add: numeral_eq_Suc)
  show ?thesis
    by (simp add: save_dataframe_as_html_def example_table_def parse_minutes_examples c
        z_scores_example grade_row_def astype_int_def float64_of_int_def
        float_of_decimal_def)
qed

text \<open>C1: the two grade mappings. For a commit count \<open>c\<close> of at least 1,
  \<open>calculate_result c\<close> is \<open>fail\<close> for \<open>c = 1\<close>, \<open>warning\<close> for \<open>2 \<le> c < 5\<close> and
  \<open>success\<close> for \<open>c \<ge> 5\<close>. For every row of the report the outlier count \<open>n\<close> lies
  between 0 and 4, and the final grade is \<open>success\<close> for \<open>n = 0\<close>, \<open>warning\<close> for
  \<open>1 \<le> n < 3\<close> and \<open>fail\<close> for \<open>n \<ge> 3\<close>. The final grade replaces the provisional one
  and does not depend on it: whatever provisional grades \<open>p\<close> the rows carry, the graded
  table is the same.\<close>

theorem two_grade_mappings:
  "(c = 1 \<longrightarrow> calculate_result c = ''fail'')
   \<and> (2 \<le> c \<and> c < 5 \<longrightarrow> calculate_result c = ''warning'')
   \<and> (5 \<le> c \<longrightarrow> calculate_result c = ''success'')
   \<and> (i < length df \<longrightarrow>
        (let g = save_dataframe_as_html df ! i; n = outlier_count g
         in 0 \<le> n \<and> n \<le> 4
            \<and> (n = 0 \<longrightarrow> result g = ''success'')
            \<and> (1 \<le> n \<and> n < 3 \<longrightarrow> result g = ''warning'')
            \<and> (3 \<le> n \<longrightarrow> result g = ''fail'')))
   \<and> save_dataframe_as_html (map (\<lambda>r. r\<lparr>result := p r\<rparr>) df) = save_dataframe_as_html df"
proof -
  have prov: "(c = 1 \<longrightarrow> calculate_result c = ''fail'')
      \<and> (2 \<le> c \<and> c < 5 \<longrightarrow> calculate_result c = ''warning'')
      \<and> (5 \<le> c \<longrightarrow> calculate_result c = ''success'')"
    by (simp add: calculate_result_def)
  have fin: "i < length df \<longrightarrow>
        (let g = save_dataframe_as_html df ! i; n = outlier_count g
         in 0 \<le> n \<and> n \<le> 4
            \<and> (n = 0 \<longrightarrow> result g = ''success'')
            \<and> (1 \<le> n \<and> n < 3 \<longrightarrow> result g = ''warning'')
            \<and> (3 \<le> n \<longrightarrow> result g = ''fail''))"
  proof
    assume "i < length df"
    then obtain r a b d where g: "save_dataframe_as_html df ! i = grade_row r a b d"
      using nth_save_dataframe_as_html by blast
    show "let g = save_dataframe_as_html df ! i; n = outlier_count g
         in 0 \<le> n \<and> n \<le> 4
            \<and> (n = 0 \<longrightarrow> result g = ''success'')
            \<and> (1 \<le> n \<and> n < 3 \<longrightarrow> result g = ''warning'')
            \<and> (3 \<le> n \<longrightarrow> result g = ''fail'')"
      unfolding g Let_def
      using grade_row_outlier_count [of r a b d]
      by (simp add: grade_row_result final_grade_cases)
  qed
  from prov fin save_dataframe_as_html_provisional [of p df] show ?thesis by blast
qed

theorem two_grade_mappings_witness:
  "calculate_result 1 = ''fail'' \<and> calculate_result 3 = ''warning''
   \<and> calculate_result 7 = ''success''
   \<and> map outlier_count (save_dataframe_as_html example_table) = [3, 0, 1, 0]
   \<and> map result (save_dataframe_as_html example_table)
       = [''fail'', ''success'', ''warning'', ''success'']
   \<and> map result example_table = [''fail'', ''success'', ''success'', ''success'']"
proof -
  have len: "length (save_dataframe_as_html example_table) = 4"
    by (simp add: length_save_dataframe_as_html example_table_def)
  have n: "outlier_count (save_dataframe_as_html example_table ! 0) = 3"
    "outlier_count (save_dataframe_as_html example_table ! 1) = 0"
    "outlier_count (save_dataframe_as_html example_table ! 2) = 1"
    "outlier_count (save_dataframe_as_html example_table ! 3) = 0"
    using save_example len by (simp_all add: list_eq_iff_nth_eq)
  have l: "length example_table = 4" by (simp add: example_table_def)
  have r0: "result (save_dataframe_as_html example_table ! 0) = ''fail''"
    using two_grade_mappings [of 1 0 example_table] by (simp add: n l Let_def)
  have r1: "result (save_dataframe_as_html example_table ! 1) = ''success''"
    using two_grade_mappings [of 1 1 example_table] n(2) by (simp add: l Let_def)
  have r2: "result (save_dataframe_as_html example_table ! 2) = ''warning''"
    using two_grade_mappings [of 1 2 example_table] by (simp add: n l Let_def)
  have r3: "result (save_dataframe_as_html example_table ! 3) = ''success''"
    using two_grade_mappings [of 1 3 example_table] by (simp add: n l Let_def)
  note r = r0 r1 r2 r3
  have "map result (save_dataframe_as_html example_table)
       = [''fail'', ''success'', ''warning'', ''success'']"
    using r len by (simp add: list_eq_iff_nth_eq less_Suc_eq numeral_eq_Suc)
  moreover have "map result example_table
      = [''fail'', ''success'', ''success'', ''success'']"
    by (simp add: example_table_def)
  ultimately show ?thesis
    using two_grade_mappings [of 1] two_grade_mappings [of 3] two_grade_mappings [of 7]
      save_example by simp
qed

text \<open>The commit counts and the coding minutes are integers. When such a metric has one
  and the same value \<open>c\<close> in every row (and the sum of the column stays below \<open>2 ^ 53\<close>),
  its standard deviation is 0, the guarded branch is taken, every z-score of the metric is
  0 and no row is flagged on it.\<close>

lemma constant_integer_metric_z_scores:
  assumes "i < length df" and "\<bar>c\<bar> * int (length df) < 2 ^ 53"
  shows "(\<forall>r\<in>set df. commit_count r = c) \<longrightarrow>
        np_std (map (\<lambda>r. float64_of_int (commit_count r)) df) = 0
        \<and> z_score_commit (save_dataframe_as_html df ! i) = 0
        \<and> \<not> commit_count_is_outlier (save_dataframe_as_html df ! i)"
    and "(\<forall>r\<in>set df. parse_minutes (coding_time r) = c) \<longrightarrow>
        np_std (map (\<lambda>r. float64_of_int (parse_minutes (coding_time r))) df) = 0
        \<and> z_score_minutes (save_dataframe_as_html df ! i) = 0
        \<and> \<not> coding_minutes_is_outlier (save_dataframe_as_html df ! i)"
proof -
  note g = nth_save_dataframe_as_html [OF assms(1)]
  have "\<bar>c\<bar> * 1 \<le> \<bar>c\<bar> * int (length df)"
    using assms(1) by (intro mult_left_mono) simp_all
  with assms(2) have "\<bar>c\<bar> < 2 ^ 53" by simp
  then have c: "float64_of_int c = of_int c"
    unfolding float64_of_int_def by (rule fl64_of_int)
  have const: "np_std (map (\<lambda>r. float64_of_int (f r)) df) = 0
      \<and> z_scores (map (\<lambda>r. float64_of_int (f r)) df) ! i = 0"
    if "\<forall>r\<in>set df. f r = c" for f :: "summary_row \<Rightarrow> int"
  proof -
    from that have all: "\<forall>x\<in>set (map (\<lambda>r. float64_of_int (f r)) df). x = of_int c"
      by (simp add: c)
    have len: "\<bar>c\<bar> * int (length (map (\<lambda>r. float64_of_int (f r)) df)) < 2 ^ 53"
      using assms(2) by simp
    show ?thesis
      using np_std_const_int [OF all len] z_scores_const_int [OF all len] assms(1)
      by simp
  qed
  show "(\<forall>r\<in>set df. commit_count r = c) \<longrightarrow>
        np_std (map (\<lambda>r. float64_of_int (commit_count r)) df) = 0
        \<and> z_score_commit (save_dataframe_as_html df ! i) = 0
        \<and> \<not> commit_count_is_outlier (save_dataframe_as_html df ! i)"
    using const [of commit_count] by (simp add: g grade_row_def Let_def np_round2_0)
  show "(\<forall>r\<in>set df. parse_minutes (coding_time r) = c) \<longrightarrow>
        np_std (map (\<lambda>r. float64_of_int (parse_minutes (coding_time r))) df) = 0
        \<and> z_score_minutes (save_dataframe_as_html df ! i) = 0
        \<and> \<not> coding_minutes_is_outlier (save_dataframe_as_html df ! i)"
    using const [of "\<lambda>r. parse_minutes (coding_time r)"]
    by (simp add: g grade_row_def Let_def np_round2_0)
qed

text \<open>The mean changed lines are decimals. The float of \<open>5.6\<close> is \<open>6305039478318694 / 2 ^ 50\<close>.
  In a column of three of them the sum is rounded (a tie, to the even significand), the
  mean comes out one unit in the last place below the entries, and the standard deviation
  is \<open>2 ^ -50\<close>, not 0.\<close>

lemma float_of_decimal_example: "float_of_decimal 5.6 = 6305039478318694 / 2 ^ 50"
  unfolding float_of_decimal_def
  by (rule fl64_roundI [of _ "31525197391593472 / 5" 50 6305039478318694])
    (simp_all add: round_half_even_def)

lemma np_sum_example:
  "np_sum [6305039478318694 / 2 ^ 50, 6305039478318694 / 2 ^ 50, 6305039478318694 / 2 ^ 50]
     = 4728779608739020 / 2 ^ 48"
proof -
  let ?x = "6305039478318694 / 2 ^ 50 :: real"
  have 1: "fl64 (0 + ?x) = ?x"
    by (rule fl64_exactI [of _ 6305039478318694 50]) simp_all
  have 2: "fl64 (?x + ?x) = 6305039478318694 / 2 ^ 49"
    by (rule fl64_exactI [of _ 6305039478318694 49]) simp_all
  have 3: "fl64 (6305039478318694 / 2 ^ 49 + ?x) = 4728779608739020 / 2 ^ 48"
    by (rule fl64_roundI [of _ "9457559217478041 / 2" 48 4728779608739020])
      (simp_all add: round_half_even_def)
  show ?thesis
    unfolding np_sum_def foldl.simps 1 2 3 ..
qed

lemma np_mean_example:
  "np_mean [6305039478318694 / 2 ^ 50, 6305039478318694 / 2 ^ 50, 6305039478318694 / 2 ^ 50]
     = 6305039478318693 / 2 ^ 50"
proof -
  have "fl64 (4728779608739020 / 2 ^ 48 / real (length [a, b, d]))
      = 6305039478318693 / 2 ^ 50" for a b d :: real
    by (rule fl64_roundI [of _ "18915118434956080 / 3" 50 6305039478318693])
      (simp_all add: round_half_even_def)
  then show ?thesis
    unfolding np_mean_def np_sum_example .
qed

lemma np_std_example:
  "np_std [6305039478318694 / 2 ^ 50, 6305039478318694 / 2 ^ 50, 6305039478318694 / 2 ^ 50]
     = 1 / 2 ^ 50"
proof -
  let ?x = "6305039478318694 / 2 ^ 50 :: real"
  let ?q = "1 / 2 ^ 100 :: real"
  have d: "fl64 (?x - 6305039478318693 / 2 ^ 50) = 1 / 2 ^ 50"
    by (rule fl64_exactI [of _ 1 50]) simp_all
  have q: "fl64 (1 / 2 ^ 50 * (1 / 2 ^ 50)) = ?q"
    by (rule fl64_exactI [of _ 1 100]) simp_all
  have 1: "fl64 (0 + ?q) = ?q"
    by (rule fl64_exactI [of _ 1 100]) simp_all
  have 2: "fl64 (?q + ?q) = 1 / 2 ^ 99"
    by (rule fl64_exactI [of _ 1 99]) simp_all
  have 3: "fl64 (1 / 2 ^ 99 + ?q) = 3 / 2 ^ 100"
    by (rule fl64_exactI [of _ 3 100]) simp_all
  have s: "np_sum [?q, ?q, ?q] = 3 / 2 ^ 100"
    unfolding np_sum_def foldl.simps 1 2 3 ..
  have m: "fl64 (np_sum [?x, ?x, ?x] / real (length [?x, ?x, ?x])) = 6305039478318693 / 2 ^ 50"
    using np_mean_example unfolding np_mean_def .
  have v: "fl64 (3 / 2 ^ 100 / real (length [?x, ?x, ?x])) = ?q"
    by (rule fl64_exactI [of _ 1 100]) simp_all
  have var: "np_var [?x, ?x, ?x] = ?q"
    unfolding np_var_def Let_def m list.map d q s v ..
  have "sqrt ?q = 1 / 2 ^ 50"
    by (rule real_sqrt_unique) (simp_all add: power2_eq_square)
  moreover have "fl64 (1 / 2 ^ 50) = 1 / 2 ^ 50"
    by (rule fl64_exactI [of _ 1 50]) simp_all
  ultimately show ?thesis
    unfolding np_std_def var by (simp only:)
qed

lemma z_scores_constant_example:
  "z_scores [6305039478318694 / 2 ^ 50, 6305039478318694 / 2 ^ 50, 6305039478318694 / 2 ^ 50]
     = [1, 1, 1]"
proof -
  have d: "fl64 (6305039478318694 / 2 ^ 50 - 6305039478318693 / 2 ^ 50) = 1 / 2 ^ 50"
    by (rule fl64_exactI [of _ 1 50]) simp_all
  have q: "fl64 (1 / 2 ^ 50 / (1 / 2 ^ 50)) = 1"
    by (rule fl64_exactI [of _ 1 0]) simp_all
  have n: "(1 / 2 ^ 50 :: real) \<noteq> 0" by simp
  show ?thesis
    unfolding z_scores_def Let_def np_mean_example np_std_example if_P [OF n] list.map d q ..
qed

text \<open>C7, at a table of three files with the same metrics (5 commits, a cell of mean
  changed lines that reads \<open>5.6\<close>, 30 minutes): the commit counts and the coding minutes
  have the standard deviation 0 and z-scores 0. The mean changed lines have the same
  value in every row, but their standard deviation is \<open>2 ^ -50\<close> and not 0, the guarded
  branch is not taken, and the z-score of that metric is 1 in every row, not 0 (raw and as
  displayed). No row is flagged on any of the three metrics, and the report builder returns
  a graded row for every row of the table.\<close>

theorem constant_changes_column_z_scores:
  "map commit_count constant_table = [5, 5, 5]
   \<and> map avg_changes constant_table = [5.6, 5.6, 5.6]
   \<and> map (\<lambda>r. parse_minutes (coding_time r)) constant_table = [30, 30, 30]
   \<and> np_std (map (\<lambda>r. float_of_decimal (avg_changes r)) constant_table) = 1 / 2 ^ 50
   \<and> z_scores (map (\<lambda>r. float_of_decimal (avg_changes r)) constant_table) = [1, 1, 1]
   \<and> map z_score_changes (save_dataframe_as_html constant_table) = [1, 1, 1]
   \<and> map avg_changes_is_outlier (save_dataframe_as_html constant_table)
       = [False, False, False]
   \<and> map z_score_commit (save_dataframe_as_html constant_table) = [0, 0, 0]
   \<and> map commit_count_is_outlier (save_dataframe_as_html constant_table)
       = [False, False, False]
   \<and> map z_score_minutes (save_dataframe_as_html constant_table) = [0, 0, 0]
   \<and> map coding_minutes_is_outlier (save_dataframe_as_html constant_table)
       = [False, False, False]"
proof -
  have col: "map (\<lambda>r. float_of_decimal (avg_changes r)) constant_table
      = [6305039478318694 / 2 ^ 50, 6305039478318694 / 2 ^ 50, 6305039478318694 / 2 ^ 50]"
    by (simp only: constant_table_def list.map summary_row.select_convs
        float_of_decimal_example)
  have c: "map (\<lambda>r. float64_of_int (commit_count r)) constant_table = [5, 5, 5]"
    by (simp add: constant_table_def float64_of_int_def)
  have m: "map (\<lambda>r. float64_of_int (parse_minutes (coding_time r))) constant_table
      = [30, 30, 30]"
    by (simp add: constant_table_def float64_of_int_def parse_minutes_examples)
  have z5: "z_scores [5, 5, 5] = [0, 0, 0]"
    using z_scores_const_int [of "[5, 5, 5]" 5] by (simp add: numeral_eq_Suc)
  have z30: "z_scores [30, 30, 30] = [0, 0, 0]"
    using z_scores_const_int [of "[30, 30, 30]" 30] by (simp add: numeral_eq_Suc)
  have rows: "save_dataframe_as_html constant_table
      = map (\<lambda>r. grade_row r 0 1 0) constant_table"
    unfolding save_dataframe_as_html_def Let_def col c m z5 z30 z_scores_constant_example
    by (simp add: constant_table_def)
  have "map commit_count constant_table = [5, 5, 5]"
    and "map avg_changes constant_table = [5.6, 5.6, 5.6]"
    and "map (\<lambda>r. parse_minutes (coding_time r)) constant_table = [30, 30, 30]"
    by (simp_all add: constant_table_def parse_minutes_examples)
  moreover have "np_std (map (\<lambda>r. float_of_decimal (avg_changes r)) constant_table) = 1 / 2 ^ 50"
    unfolding col by (rule np_std_example)
  moreover have "z_scores (map (\<lambda>r. float_of_decimal (avg_changes r)) constant_table) = [1, 1, 1]"
    unfolding col by (rule z_scores_constant_example)
  moreover have "map z_score_changes (save_dataframe_as_html constant_table) = [1, 1, 1]"
    and "map avg_changes_is_outlier (save_dataframe_as_html constant_table)
       = [False, False, False]"
    and "map z_score_commit (save_dataframe_as_html constant_table) = [0, 0, 0]"
    and "map commit_count_is_outlier (save_dataframe_as_html constant_table)
       = [False, False, False]"
    and "map z_score_minutes (save_dataframe_as_html constant_table) = [0, 0, 0]"
    and "map coding_minutes_is_outlier (save_dataframe_as_html constant_table)
       = [False, False, False]"
    unfolding rows
    by (simp_all add: constant_table_def grade_row_def Let_def np_round2_0 np_round2_1)
  ultimately show ?thesis by blast
qed

lemma analyze_commits_pages:
  assumes resolved: "fst (extract_repo_info w github_url token) = Inr (repo_owner, repo_name)"
    and base: "base_url = ''https://api.github.com/repos/'' @ repo_owner @ ''/'' @ repo_name
                 @ ''/commits''"
    and hdrs: "hdrs = [(''Authorization'', token_header token),
                       (''Accept'', ''application/vnd.github.v3+json'')]"
    and pages: "\<forall>i<length pages.
        commits_endpoint w base_url hdrs
          \<lparr>per_page = 100, author = Some username, page = Some (1 + i)\<rparr> = Reply 200 (pages ! i)
        \<and> pages ! i \<noteq> []"
    and last: "commits_endpoint w base_url hdrs
          \<lparr>per_page = 100, author = Some username, page = Some (1 + length pages)\<rparr>
        = Reply 200 []"
    and found: "fetch_commits_page w base_url hdrs False [] start_filter end_filter username
          (concat pages) [] = Inr raw_data"
    and some: "raw_data \<noteq> []"
  shows "analyze_commits w (week_label, start_filter, end_filter) github_url token username
           directory exclude_first_commit
         = Some (Inr (if exclude_first_commit then exclude_first_commits raw_data
                      else raw_data))"
proof -
  let ?ps = "\<lparr>per_page = 100, author = Some username, page = None\<rparr>"
  have p: "\<forall>i<length pages.
        commits_endpoint w base_url hdrs (?ps\<lparr>page := Some (1 + i)\<rparr>) = Reply 200 (pages ! i)
        \<and> pages ! i \<noteq> []"
    using pages by simp
  have l: "commits_endpoint w base_url hdrs (?ps\<lparr>page := Some (1 + length pages)\<rparr>)
        = Reply 200 []"
    using last by simp
  have "fetch_commits w base_url hdrs ?ps [] start_filter end_filter username
      = Some (Inr raw_data)"
    unfolding fetch_commits_def fetch_commits_loop_pages [OF p l]
    using found by simp
  then have fc: "fetch_commits w
       (''https://api.github.com/repos/'' @ repo_owner @ ''/'' @ repo_name @ ''/commits'')
       [(''Authorization'', token_header token), (''Accept'', ''application/vnd.github.v3+json'')]
       ?ps [] start_filter end_filter username
      = Some (Inr raw_data)"
    unfolding base hdrs .
  show ?thesis
    using some fc by (simp add: analyze_commits_def resolved Let_def)
qed

lemma analyze_commits_directory:
  "analyze_commits w (week_label, start_filter, end_filter) github_url token username
       directory exclude_first_commit
   = analyze_commits w (week_label', start_filter, end_filter) github_url token username
       directory' exclude_first_commit"
  unfolding analyze_commits_def Let_def prod.case ..

lemma kept_file_empty_prefix:
  "kept_file [] f \<longleftrightarrow> endswith (file_filename f) ''.py'' \<and> file_status f \<noteq> ''removed''"
  by (simp add: kept_file_def startswith_def)

lemma example_resolved:
  "fst (extract_repo_info example_github ''https://github.com/octo/hello'' None)
     = Inr (''octo'', ''hello'')"
proof -
  have "parse_repo_url ''https://github.com/octo/hello'' = Some (''octo'', ''hello'')"
    using parse_repo_url_valid [of "''octo''" "''hello''" False False]
    by (simp add: endswith_def suffix_to_prefix)
  then show ?thesis
    by (simp add: extract_repo_info_def example_github_def)
qed

lemma example_page:
  "fetch_commits_page example_github ''https://api.github.com/repos/octo/hello/commits'' hdrs
      False [] 0 604800000000 ''kim'' [\<lparr>sha = ''c1'', author_name = ''Kim''\<rparr>] []
   = Inr [record_of ''kim'' 36000000000 (Some ''https://github.com/octo/hello/commit/c1'')
            (example_files ! 0),
          record_of ''kim'' 36000000000 (Some ''https://github.com/octo/hello/commit/c1'')
            (example_files ! 1)]"
  by (simp add: fetch_commits_commit_def example_github_def example_detail_def nine_hours_def
      fetch_commits_files_eq example_files_def kept_file_def startswith_def endswith_def
      suffix_to_prefix)

text \<open>C3, as amended: \<open>analyze_commits\<close> scopes the commit-file search by the empty prefix,
  whatever directory the caller supplies and whatever the week label is. The label and the
  directory argument do not change the result. Where the repository resolves, the first
  pass has finitely many pages and finds records, the result is made of the records that
  the file loop yields with the prefix \<open>''\<close>, and with that prefix a changed file is kept
  if and only if its path ends with \<open>.py\<close> and its status is not \<open>removed\<close>, in whatever
  directory it lies.\<close>

theorem analyze_commits_empty_prefix:
  assumes "fst (extract_repo_info w github_url token) = Inr (repo_owner, repo_name)"
    and "base_url = ''https://api.github.com/repos/'' @ repo_owner @ ''/'' @ repo_name
                 @ ''/commits''"
    and "hdrs = [(''Authorization'', token_header token),
                 (''Accept'', ''application/vnd.github.v3+json'')]"
    and "\<forall>i<length pages.
        commits_endpoint w base_url hdrs
          \<lparr>per_page = 100, author = Some username, page = Some (1 + i)\<rparr> = Reply 200 (pages ! i)
        \<and> pages ! i \<noteq> []"
    and "commits_endpoint w base_url hdrs
          \<lparr>per_page = 100, author = Some username, page = Some (1 + length pages)\<rparr>
        = Reply 200 []"
    and "fetch_commits_page w base_url hdrs False [] start_filter end_filter username
          (concat pages) [] = Inr raw_data"
    and "raw_data \<noteq> []"
  shows "analyze_commits w (week_label, start_filter, end_filter) github_url token username
           directory exclude_first_commit
         = Some (Inr (if exclude_first_commit then exclude_first_commits raw_data
                      else raw_data))
     \<and> analyze_commits w (week_label, start_filter, end_filter) github_url token username
           directory exclude_first_commit
         = analyze_commits w (week_label', start_filter, end_filter) github_url token username
           directory' exclude_first_commit
     \<and> (kept_file [] f
          \<longleftrightarrow> endswith (file_filename f) ''.py'' \<and> file_status f \<noteq> ''removed'')"
  using analyze_commits_pages [OF assms] analyze_commits_directory kept_file_empty_prefix
  by blast

theorem analyze_commits_empty_prefix_witness:
  "analyze_commits example_github (''week03'', 0, 604800000000)
       ''https://github.com/octo/hello'' None ''kim'' [] True
     = Some (Inr (exclude_first_commits
         [record_of ''kim'' 36000000000 (Some ''https://github.com/octo/hello/commit/c1'')
            (example_files ! 0),
          record_of ''kim'' 36000000000 (Some ''https://github.com/octo/hello/commit/c1'')
            (example_files ! 1)]))
   \<and> analyze_commits example_github (''week03'', 0, 604800000000)
       ''https://github.com/octo/hello'' None ''kim'' [] True
     = analyze_commits example_github (''week07'', 0, 604800000000)
       ''https://github.com/octo/hello'' None ''kim'' ''lib/'' True"
proof -
  let ?base = "''https://api.github.com/repos/'' @ ''octo'' @ ''/'' @ ''hello'' @ ''/commits''"
  let ?hdrs = "[(''Authorization'', token_header None),
                (''Accept'', ''application/vnd.github.v3+json'')]"
  let ?pages = "[[\<lparr>sha = ''c1'', author_name = ''Kim''\<rparr>]]"
  have pages: "\<forall>i<length ?pages.
        commits_endpoint example_github ?base ?hdrs
          \<lparr>per_page = 100, author = Some ''kim'', page = Some (1 + i)\<rparr> = Reply 200 (?pages ! i)
        \<and> ?pages ! i \<noteq> []"
    by (simp add: example_github_def)
  have last: "commits_endpoint example_github ?base ?hdrs
          \<lparr>per_page = 100, author = Some ''kim'', page = Some (1 + length ?pages)\<rparr>
        = Reply 200 []"
    by (simp add: example_github_def)
  have found: "fetch_commits_page example_github ?base ?hdrs False [] 0 604800000000 ''kim''
          (concat ?pages) []
     = Inr [record_of ''kim'' 36000000000 (Some ''https://github.com/octo/hello/commit/c1'')
            (example_files ! 0),
          record_of ''kim'' 36000000000 (Some ''https://github.com/octo/hello/commit/c1'')
            (example_files ! 1)]"
    using example_page [of ?hdrs] by simp
  show ?thesis
    using analyze_commits_empty_prefix [OF example_resolved refl refl pages last found,
        of "''week03''" "[]" True "''week07''" "''lib/''" "example_files ! 0"]
    unfolding if_True by blast
qed

text \<open>C3 as stated does not hold: with no directory supplied and the week label
  \<open>week03\<close>, the changed file \<open>notes/app.py\<close>, which does not lie under \<open>week03/\<close>,
  produces a record.\<close>

theorem analyze_commits_week_prefix_counterexample:
  "analyze_commits example_github example_week ''https://github.com/octo/hello'' None ''kim''
       [] False
     = Some (Inr
         [record_of ''kim'' 36000000000 (Some ''https://github.com/octo/hello/commit/c1'')
            (example_files ! 0),
          record_of ''kim'' 36000000000 (Some ''https://github.com/octo/hello/commit/c1'')
            (example_files ! 1)])
   \<and> filename (record_of ''kim'' 36000000000
         (Some ''https://github.com/octo/hello/commit/c1'') (example_files ! 0))
       = ''notes/app.py''
   \<and> \<not> startswith ''notes/app.py'' (''week03'' @ ''/'')"
proof -
  let ?base = "''https://api.github.com/repos/'' @ ''octo'' @ ''/'' @ ''hello'' @ ''/commits''"
  let ?hdrs = "[(''Authorization'', token_header None),
                (''Accept'', ''application/vnd.github.v3+json'')]"
  let ?pages = "[[\<lparr>sha = ''c1'', author_name = ''Kim''\<rparr>]]"
  have pages: "\<forall>i<length ?pages.
        commits_endpoint example_github ?base ?hdrs
          \<lparr>per_page = 100, author = Some ''kim'', page = Some (1 + i)\<rparr> = Reply 200 (?pages ! i)
        \<and> ?pages ! i \<noteq> []"
    by (simp add: example_github_def)
  have last: "commits_endpoint example_github ?base ?hdrs
          \<lparr>per_page = 100, author = Some ''kim'', page = Some (1 + length ?pages)\<rparr>
        = Reply 200 []"
    by (simp add: example_github_def)
  have found: "fetch_commits_page example_github ?base ?hdrs False [] 0 604800000000 ''kim''
          (concat ?pages) []
     = Inr [record_of ''kim'' 36000000000 (Some ''https://github.com/octo/hello/commit/c1'')
            (example_files ! 0),
          record_of ''kim'' 36000000000 (Some ''https://github.com/octo/hello/commit/c1'')
            (example_files ! 1)]"
    using example_page [of ?hdrs] by simp
  have "analyze_commits example_github example_week ''https://github.com/octo/hello'' None
       ''kim'' [] False
     = Some (Inr
         [record_of ''kim'' 36000000000 (Some ''https://github.com/octo/hello/commit/c1'')
            (example_files ! 0),
          record_of ''kim'' 36000000000 (Some ''https://github.com/octo/hello/commit/c1'')
            (example_files ! 1)])"
    unfolding example_week_def
    using analyze_commits_pages [OF example_resolved refl refl pages last found,
        of "''week03''" "[]" False]
    by simp
  moreover have "filename (record_of ''kim'' 36000000000
         (Some ''https://github.com/octo/hello/commit/c1'') (example_files ! 0))
       = ''notes/app.py''"
    by (simp add: record_of_def example_files_def)
  moreover have "\<not> startswith ''notes/app.py'' (''week03'' @ ''/'')"
    by (simp add: startswith_def)
  ultimately show ?thesis by blast
qed

subsection \<open>Excluding each file's first commit\<close>

lemma rank_first_one:
  assumes "i < length df"
  shows "rank_first df i = 1 \<longleftrightarrow> is_earliest df i"
proof -
  have "rank_first df i = 1 \<longleftrightarrow>
     (\<forall>j<length df. \<not> (filename (df ! j) = filename (df ! i)
        \<and> (date (df ! j) < date (df ! i) \<or> (date (df ! j) = date (df ! i) \<and> j < i))))"
    unfolding rank_first_def by (auto simp: filter_empty_conv)
  also have "\<dots> \<longleftrightarrow> is_earliest df i"
  proof
    assume r: "\<forall>j<length df. \<not> (filename (df ! j) = filename (df ! i)
        \<and> (date (df ! j) < date (df ! i) \<or> (date (df ! j) = date (df ! i) \<and> j < i)))"
    show "is_earliest df i"
      unfolding is_earliest_def
    proof (intro conjI ballI impI)
      fix j assume "j \<in> {..<length df}" "filename (df ! j) = filename (df ! i)"
      with r show "date (df ! i) \<le> date (df ! j)" by force
    next
      fix j assume j: "j \<in> {..<i}" "filename (df ! j) = filename (df ! i)"
      then have "j < length df" using assms by simp
      with r j show "date (df ! j) \<noteq> date (df ! i)" by force
    qed
  next
    assume e: "is_earliest df i"
    show "\<forall>j<length df. \<not> (filename (df ! j) = filename (df ! i)
        \<and> (date (df ! j) < date (df ! i) \<or> (date (df ! j) = date (df ! i) \<and> j < i)))"
    proof (intro allI impI notI)
      fix j assume j: "j < length df"
        and c: "filename (df ! j) = filename (df ! i)
          \<and> (date (df ! j) < date (df ! i) \<or> (date (df ! j) = date (df ! i) \<and> j < i))"
      from e j c have "date (df ! i) \<le> date (df ! j)"
        unfolding is_earliest_def by simp
      moreover from e c have "j < i \<longrightarrow> date (df ! j) \<noteq> date (df ! i)"
        unfolding is_earliest_def by simp
      ultimately show False using c by auto
    qed
  qed
  finally show ?thesis .
qed

lemma earliest_exists:
  assumes "i0 < length df" "filename (df ! i0) = f"
  shows "\<exists>i<length df. filename (df ! i) = f \<and> is_earliest df i"
proof -
  let ?S = "{i. i < length df \<and> filename (df ! i) = f}"
  have fin: "finite ?S" by simp
  have ne: "?S \<noteq> {}" using assms by blast
  let ?m = "Min (date ` (\<lambda>i. df ! i) ` ?S)"
  have "?m \<in> date ` (\<lambda>i. df ! i) ` ?S" using fin ne by (intro Min_in) auto
  then obtain k where k: "k \<in> ?S" "date (df ! k) = ?m" by auto
  let ?T = "{i \<in> ?S. date (df ! i) = ?m}"
  have "Min ?T \<in> ?T" using k by (intro Min_in) auto
  then have e: "Min ?T < length df" "filename (df ! Min ?T) = f" "date (df ! Min ?T) = ?m"
    by auto
  have least: "\<And>j. j \<in> ?T \<Longrightarrow> Min ?T \<le> j" by simp
  have low: "\<And>j. j \<in> ?S \<Longrightarrow> ?m \<le> date (df ! j)" using fin by (intro Min_le) auto
  have "is_earliest df (Min ?T)"
    unfolding is_earliest_def
  proof (intro conjI ballI impI)
    fix j assume "j \<in> {..<length df}" "filename (df ! j) = filename (df ! Min ?T)"
    then have "j \<in> ?S" using e by simp
    from low [OF this] show "date (df ! Min ?T) \<le> date (df ! j)" using e by simp
  next
    fix j assume j: "j \<in> {..<Min ?T}" "filename (df ! j) = filename (df ! Min ?T)"
    show "date (df ! j) \<noteq> date (df ! Min ?T)"
    proof
      assume "date (df ! j) = date (df ! Min ?T)"
      with j e have "j \<in> ?T" by simp
      from least [OF this] j(1) show False by simp
    qed
  qed
  with e show ?thesis by blast
qed

lemma earliest_unique:
  assumes "i < length df" "i' < length df" "filename (df ! i) = filename (df ! i')"
    "is_earliest df i" "is_earliest df i'"
  shows "i = i'"
proof (rule ccontr)
  assume ne: "i \<noteq> i'"
  from assms have d: "date (df ! i) = date (df ! i')"
    unfolding is_earliest_def by (metis lessThan_iff order_antisym)
  from ne consider "i < i'" | "i' < i" by linarith
  then show False
  proof cases
    case 1
    with assms(3,5) d show False unfolding is_earliest_def by auto
  next
    case 2
    with assms(3,4) d show False unfolding is_earliest_def by auto
  qed
qed


lemma rows_of_nth:
  "rows_of f df = map ((!) df) (filter (\<lambda>i. filename (df ! i) = f) [0..<length df])"
proof -
  have "rows_of f (map ((!) df) [0..<length df])
      = map ((!) df) (filter (\<lambda>i. filename (df ! i) = f) [0..<length df])"
    unfolding rows_of_def filter_map by (simp add: o_def)
  then show ?thesis by (simp only: map_nth)
qed

lemma group_count_rows_of: "group_count df i = length (rows_of (filename (df ! i)) df)"
  by (simp add: group_count_def rows_of_def)

lemma exclude_first_commits_eq:
  "exclude_first_commits df =
     map ((!) df)
       (filter (\<lambda>i. \<not> (1 < length (rows_of (filename (df ! i)) df) \<and> is_earliest df i))
          [0..<length df])"
proof -
  have "filter (\<lambda>i. \<not> (rank_first df i = 1 \<and> group_count df i > 1)) [0..<length df]
      = filter (\<lambda>i. \<not> (1 < length (rows_of (filename (df ! i)) df) \<and> is_earliest df i))
          [0..<length df]"
    using rank_first_one [of _ df]
    by (intro filter_cong) (auto simp: group_count_rows_of)
  then show ?thesis by (simp add: exclude_first_commits_def)
qed

lemma rows_of_exclude_first_commits:
  "rows_of f (exclude_first_commits df) =
     map ((!) df)
       (filter (\<lambda>i. filename (df ! i) = f
                  \<and> \<not> (1 < length (rows_of f df) \<and> is_earliest df i))
          [0..<length df])"
proof -
  have "filter ((\<lambda>r. filename r = f) \<circ> (!) df)
          (filter (\<lambda>i. \<not> (1 < length (rows_of (filename (df ! i)) df) \<and> is_earliest df i))
             [0..<length df])
      = filter (\<lambda>i. filename (df ! i) = f
                  \<and> \<not> (1 < length (rows_of f df) \<and> is_earliest df i))
          [0..<length df]"
    unfolding filter_filter by (rule filter_cong) auto
  then show ?thesis
    unfolding exclude_first_commits_eq rows_of_def filter_map by simp
qed

lemma length_filter_without:
  assumes "e < n" "P e"
  shows "length (filter (\<lambda>i. P i \<and> i \<noteq> e) [0..<n]) = length (filter P [0..<n]) - 1"
proof -
  have "filter (\<lambda>i. P i \<and> i \<noteq> e) [0..<n] = removeAll e (filter P [0..<n])"
    unfolding removeAll_filter_not_eq filter_filter by (rule filter_cong) auto
  also have "\<dots> = remove1 e (filter P [0..<n])"
    by (rule distinct_remove1_removeAll [symmetric]) simp
  finally show ?thesis using assms by (simp add: length_remove1)
qed

lemma exclude_first_commits_example:
  assumes "filename r1 = f" "filename r2 = f" "filename r3 = f" "filename r4 \<noteq> f"
    and "date r1 < date r2" "date r2 < date r3"
  shows "exclude_first_commits [r1, r2, r3, r4] = [r2, r3, r4]"
proof -
  have u: "[0..<length [r1, r2, r3, r4]] = [0, 1, 2, 3]"
    by (simp add: upt_rec)
  show ?thesis
    unfolding exclude_first_commits_def u
    using assms by (simp add: rank_first_def group_count_def upt_rec)
qed

text \<open>C6: with the exclude-first-commit option, for every file name with more than one
  record there is exactly one chronologically earliest record (smallest date; among the
  records of the file with that date, the first of the input), that record is dropped and
  every other record of the file is kept, so the file has one record less; a file name with
  exactly one record keeps it. Three records of a file at \<open>t1 < t2 < t3\<close> and one record of
  another file become the records at \<open>t2\<close> and \<open>t3\<close> and the other file's record.\<close>

theorem exclude_first_commit_drops_earliest:
  "(1 < length (rows_of f df) \<longrightarrow>
      (\<exists>e<length df. filename (df ! e) = f \<and> is_earliest df e
         \<and> (\<forall>i<length df. filename (df ! i) = f \<and> is_earliest df i \<longrightarrow> i = e)
         \<and> rows_of f (exclude_first_commits df)
             = map ((!) df) (filter (\<lambda>i. filename (df ! i) = f \<and> i \<noteq> e) [0..<length df])
         \<and> length (rows_of f (exclude_first_commits df)) = length (rows_of f df) - 1))
   \<and> (length (rows_of f df) = 1 \<longrightarrow> rows_of f (exclude_first_commits df) = rows_of f df)
   \<and> (filename r1 = f \<and> filename r2 = f \<and> filename r3 = f \<and> filename r4 \<noteq> f
        \<and> date r1 < date r2 \<and> date r2 < date r3 \<longrightarrow>
      exclude_first_commits [r1, r2, r3, r4] = [r2, r3, r4])"
proof -
  have many: "\<exists>e<length df. filename (df ! e) = f \<and> is_earliest df e
         \<and> (\<forall>i<length df. filename (df ! i) = f \<and> is_earliest df i \<longrightarrow> i = e)
         \<and> rows_of f (exclude_first_commits df)
             = map ((!) df) (filter (\<lambda>i. filename (df ! i) = f \<and> i \<noteq> e) [0..<length df])
         \<and> length (rows_of f (exclude_first_commits df)) = length (rows_of f df) - 1"
    if m: "1 < length (rows_of f df)"
  proof -
    from m have "filter (\<lambda>i. filename (df ! i) = f) [0..<length df] \<noteq> []"
      unfolding rows_of_nth by auto
    then obtain i0 where "i0 < length df" "filename (df ! i0) = f"
      by (auto simp: filter_empty_conv)
    from earliest_exists [OF this] obtain e where e: "e < length df" "filename (df ! e) = f"
      "is_earliest df e" by blast
    have uniq: "\<forall>i<length df. filename (df ! i) = f \<and> is_earliest df i \<longrightarrow> i = e"
    proof (intro allI impI)
      fix i assume il: "i < length df" and i: "filename (df ! i) = f \<and> is_earliest df i"
      from i e(2) have same: "filename (df ! i) = filename (df ! e)" by simp
      from i have ie: "is_earliest df i" ..
      from il e(1) same ie e(3) show "i = e" by (rule earliest_unique)
    qed
    have "filter (\<lambda>i. filename (df ! i) = f
                  \<and> \<not> (1 < length (rows_of f df) \<and> is_earliest df i)) [0..<length df]
        = filter (\<lambda>i. filename (df ! i) = f \<and> i \<noteq> e) [0..<length df]"
    proof (rule filter_cong [OF refl])
      fix i assume "i \<in> set [0..<length df]"
      then have il: "i < length df" by simp
      note u = uniq [rule_format, OF il]
      show "(filename (df ! i) = f \<and> \<not> (1 < length (rows_of f df) \<and> is_earliest df i))
          = (filename (df ! i) = f \<and> i \<noteq> e)"
        using m e(3) u by blast
    qed
    then have rows: "rows_of f (exclude_first_commits df)
        = map ((!) df) (filter (\<lambda>i. filename (df ! i) = f \<and> i \<noteq> e) [0..<length df])"
      unfolding rows_of_exclude_first_commits by simp
    have "length (rows_of f (exclude_first_commits df))
        = length (filter (\<lambda>i. filename (df ! i) = f \<and> i \<noteq> e) [0..<length df])"
      by (simp only: rows length_map)
    also have "\<dots> = length (filter (\<lambda>i. filename (df ! i) = f) [0..<length df]) - 1"
      using e(1,2) by (rule length_filter_without)
    also have "length (filter (\<lambda>i. filename (df ! i) = f) [0..<length df])
        = length (rows_of f df)"
      by (simp only: rows_of_nth [of f df] length_map)
    finally have "length (rows_of f (exclude_first_commits df)) = length (rows_of f df) - 1" .
    with e uniq rows show ?thesis by blast
  qed
  have one: "rows_of f (exclude_first_commits df) = rows_of f df"
    if "length (rows_of f df) = 1"
    unfolding rows_of_exclude_first_commits using that by (simp add: rows_of_nth)
  from many one exclude_first_commits_example [of r1 f r2 r3 r4] show ?thesis by blast
qed

theorem exclude_first_commit_drops_earliest_witness:
  "1 < length (rows_of ''a.py'' example_frame)
   \<and> length (rows_of ''b.py'' example_frame) = 1
   \<and> rows_of ''a.py'' (exclude_first_commits example_frame)
       = [commit_of ''a.py'' 5, commit_of ''a.py'' 5, commit_of ''a.py'' 3]
   \<and> rows_of ''b.py'' (exclude_first_commits example_frame) = [commit_of ''b.py'' 1]
   \<and> exclude_first_commits
         [commit_of ''a.py'' 1, commit_of ''a.py'' 2, commit_of ''a.py'' 3, commit_of ''b.py'' 4]
       = [commit_of ''a.py'' 2, commit_of ''a.py'' 3, commit_of ''b.py'' 4]"
proof -
  have n: "length example_frame = 5" by (simp add: example_frame_def)
  have a: "1 < length (rows_of ''a.py'' example_frame)"
    and b: "length (rows_of ''b.py'' example_frame) = 1"
    and rb: "rows_of ''b.py'' example_frame = [commit_of ''b.py'' 1]"
    by (simp_all add: rows_of_def example_frame_def commit_of_def)
  have i3: "(3::nat) < length example_frame" "filename (example_frame ! 3) = ''a.py''"
    by (simp_all add: example_frame_def commit_of_def)
  have e3: "is_earliest example_frame 3"
    by (simp add: is_earliest_def example_frame_def commit_of_def lessThan_nat_numeral
        lessThan_Suc)
  note th = exclude_first_commit_drops_earliest [of "''a.py''" example_frame
      "commit_of ''a.py'' 1" "commit_of ''a.py'' 2" "commit_of ''a.py'' 3" "commit_of ''b.py'' 4"]
  from th a obtain e where e: "e < length example_frame"
    "\<forall>i<length example_frame. filename (example_frame ! i) = ''a.py''
        \<and> is_earliest example_frame i \<longrightarrow> i = e"
    "rows_of ''a.py'' (exclude_first_commits example_frame)
       = map ((!) example_frame)
           (filter (\<lambda>i. filename (example_frame ! i) = ''a.py'' \<and> i \<noteq> e)
              [0..<length example_frame])"
    by blast
  from e(2) i3 e3 have "e = 3" by blast
  have u: "[0..<length example_frame] = [0, 1, 2, 3, 4]"
    unfolding n by (simp add: upt_rec)
  have ra: "rows_of ''a.py'' (exclude_first_commits example_frame)
       = [commit_of ''a.py'' 5, commit_of ''a.py'' 5, commit_of ''a.py'' 3]"
    unfolding e(3) \<open>e = 3\<close> u by (simp add: example_frame_def commit_of_def)
  from th b have "rows_of ''b.py'' (exclude_first_commits example_frame)
      = rows_of ''b.py'' example_frame"
    using exclude_first_commit_drops_earliest [of "''b.py''" example_frame] by blast
  then have rb': "rows_of ''b.py'' (exclude_first_commits example_frame) = [commit_of ''b.py'' 1]"
    using rb by simp
  have "filename (commit_of ''a.py'' 1) = ''a.py'' \<and> filename (commit_of ''a.py'' 2) = ''a.py''
      \<and> filename (commit_of ''a.py'' 3) = ''a.py'' \<and> filename (commit_of ''b.py'' 4) \<noteq> ''a.py''
      \<and> date (commit_of ''a.py'' 1) < date (commit_of ''a.py'' 2)
      \<and> date (commit_of ''a.py'' 2) < date (commit_of ''a.py'' 3)"
    by (simp add: commit_of_def)
  with th have ex: "exclude_first_commits
         [commit_of ''a.py'' 1, commit_of ''a.py'' 2, commit_of ''a.py'' 3, commit_of ''b.py'' 4]
       = [commit_of ''a.py'' 2, commit_of ''a.py'' 3, commit_of ''b.py'' 4]"
    by blast
  from a b ra rb' ex show ?thesis by blast
qed

subsection \<open>The similarity score\<close>

lemma clean_run_le: "clean_run b j \<le> Suc j"
  by (induction j) auto

lemma clean_run_popular: "popular b (b ! j) \<Longrightarrow> clean_run b j = 0"
  by (cases j) auto

lemma clean_run_clean:
  "\<not> popular b (b ! j) \<Longrightarrow> clean_run b j = (if j = 0 then 1 else Suc (clean_run b (j - 1)))"
  by (cases j) auto

lemma j2lenget_bound:
  assumes J: "\<forall>j k. j2len j = Some k \<longrightarrow> 0 < i \<and> k \<le> clean_run a j \<and> k \<le> clean_run a (i - 1)"
    and cj: "\<not> popular a (a ! j)" and ci: "\<not> popular a (a ! i)"
  shows "j2lenget j2len j + 1 \<le> clean_run a j \<and> j2lenget j2len j + 1 \<le> clean_run a i"
proof (cases "j = 0 \<or> j2len (j - 1) = None")
  case True
  then have "j2lenget j2len j = 0" by (auto simp: j2lenget_def)
  then show ?thesis using cj ci by (simp add: clean_run_clean)
next
  case False
  then obtain k where j: "0 < j" and k: "j2len (j - 1) = Some k" by auto
  then have g: "j2lenget j2len j = k" by (simp add: j2lenget_def)
  from J k have i: "0 < i" and k1: "k \<le> clean_run a (j - 1)" and k2: "k \<le> clean_run a (i - 1)"
    by blast+
  show ?thesis using j i k1 k2 cj ci by (simp add: g clean_run_clean)
qed

lemma j2lenget_diag:
  assumes J: "\<forall>j k. j2len j = Some k \<longrightarrow> 0 < i \<and> k \<le> clean_run a j \<and> k \<le> clean_run a (i - 1)"
    and J2: "0 < i \<longrightarrow> 0 < clean_run a (i - 1) \<longrightarrow> j2len (i - 1) = Some (clean_run a (i - 1))"
    and ci: "\<not> popular a (a ! i)"
  shows "j2lenget j2len i + 1 = clean_run a i"
proof (cases "i = 0")
  case True
  then show ?thesis using ci by (simp add: j2lenget_def)
next
  case False
  then have i: "0 < i" by simp
  show ?thesis
  proof (cases "0 < clean_run a (i - 1)")
    case True
    with J2 i have "j2len (i - 1) = Some (clean_run a (i - 1))" by simp
    then show ?thesis using i ci by (simp add: j2lenget_def clean_run_clean)
  next
    case False
    then have z: "clean_run a (i - 1) = 0" by simp
    have "j2lenget j2len i = 0"
    proof (cases "j2len (i - 1)")
      case None
      then show ?thesis by (simp add: j2lenget_def)
    next
      case (Some k)
      with J z have "k = 0" by fastforce
      with Some show ?thesis by (simp add: j2lenget_def)
    qed
    then show ?thesis using i ci z by (simp add: clean_run_clean)
  qed
qed


lemma match_row_self:
  assumes "sorted js" and "\<forall>j\<in>set js. j < n \<and> a ! j = a ! i"
    and ci: "\<not> popular a (a ! i)"
    and J: "\<forall>j k. j2len j = Some k \<longrightarrow> 0 < i \<and> k \<le> clean_run a j \<and> k \<le> clean_run a (i - 1)"
    and J2: "0 < i \<longrightarrow> 0 < clean_run a (i - 1) \<longrightarrow> j2len (i - 1) = Some (clean_run a (i - 1))"
    and "bi = bj" and "\<forall>j'<i. clean_run a j' \<le> bs"
    and "i \<in> set js \<or> (clean_run a i \<le> bs \<and> new i = Some (clean_run a i))"
    and "\<forall>j k. new j = Some k \<longrightarrow> k \<le> clean_run a j \<and> k \<le> clean_run a i"
    and "bi + bs \<le> Suc i"
  shows "\<exists>new' d s. match_row i 0 n j2len js (new, (bi, bj, bs)) = (new', (d, d, s))
     \<and> (\<forall>j'<i. clean_run a j' \<le> s) \<and> clean_run a i \<le> s
     \<and> new' i = Some (clean_run a i)
     \<and> (\<forall>j k. new' j = Some k \<longrightarrow> k \<le> clean_run a j \<and> k \<le> clean_run a i)
     \<and> d + s \<le> Suc i"
  using assms(1,2,6-10)
proof (induction js arbitrary: new bi bj bs)
  case Nil
  then show ?case by simp
next
  case (Cons j js)
  let ?k = "j2lenget j2len j + 1"
  from Cons.prems(2) have jn: "j < n" and aj: "a ! j = a ! i" by simp_all
  from ci aj have cj: "\<not> popular a (a ! j)" by simp
  from j2lenget_bound [OF J cj ci] have kj: "?k \<le> clean_run a j" and ki: "?k \<le> clean_run a i"
    by simp_all
  from Cons.prems(1) have sorted: "sorted js" and above: "\<forall>x\<in>set js. j \<le> x" by simp_all
  have diag: "j = i" if "bs < ?k"
  proof (rule ccontr)
    assume "j \<noteq> i"
    then consider "j < i" | "i < j" by linarith
    then show False
    proof cases
      case 1
      with Cons.prems(4) have "clean_run a j \<le> bs" by simp
      with kj that show False by simp
    next
      case 2
      with above have "i \<notin> set (j # js)" by auto
      with Cons.prems(5) have "clean_run a i \<le> bs" by simp
      with ki that show False by simp
    qed
  qed
  let ?new = "new(j \<mapsto> ?k)"
  obtain bi2 bj2 bs2 where best2:
    "(if ?k > bs then (i + 1 - ?k, j + 1 - ?k, ?k) else (bi, bj, bs)) = (bi2, bj2, bs2)"
    by (metis prod_cases3)
  have step: "match_row i 0 n j2len (j # js) (new, (bi, bj, bs))
      = match_row i 0 n j2len js (?new, (bi2, bj2, bs2))"
    using jn best2 by (auto simp add: Let_def split: if_splits)
  have bs2: "bs2 = max bs ?k" using best2 by (auto split: if_splits)
  have p1: "bi2 = bj2" using best2 diag Cons.prems(3) by (auto split: if_splits)
  have p2: "\<forall>j'<i. clean_run a j' \<le> bs2" using Cons.prems(4) bs2 by auto
  have p3: "i \<in> set js \<or> (clean_run a i \<le> bs2 \<and> ?new i = Some (clean_run a i))"
  proof (cases "i \<in> set js")
    case True
    then show ?thesis by simp
  next
    case False
    show ?thesis
    proof (cases "j = i")
      case True
      with j2lenget_diag [OF J J2 ci] have "?k = clean_run a i" by simp
      then show ?thesis using True bs2 by auto
    next
      case False
      with \<open>i \<notin> set js\<close> Cons.prems(5)
      have "clean_run a i \<le> bs \<and> new i = Some (clean_run a i)" by simp
      then show ?thesis using False bs2 by auto
    qed
  qed
  have p4: "\<forall>j' k. ?new j' = Some k \<longrightarrow> k \<le> clean_run a j' \<and> k \<le> clean_run a i"
    using Cons.prems(6) kj ki by auto
  have p5: "bi2 + bs2 \<le> Suc i"
  proof (cases "bs < ?k")
    case True
    from ki clean_run_le [of a i] have "?k \<le> Suc i" by simp
    with True best2 show ?thesis by auto
  next
    case False
    with best2 Cons.prems(7) show ?thesis by auto
  qed
  from Cons.prems(2) have rest: "\<forall>j\<in>set js. j < n \<and> a ! j = a ! i" by simp
  from Cons.IH [OF sorted rest p1 p2 p3 p4 p5]
  show ?case unfolding step .
qed


lemma match_rows_self:
  assumes "i \<le> length a"
    and J: "\<forall>j k. j2len j = Some k \<longrightarrow> 0 < i \<and> k \<le> clean_run a j \<and> k \<le> clean_run a (i - 1)"
    and J2: "0 < i \<longrightarrow> 0 < clean_run a (i - 1) \<longrightarrow> j2len (i - 1) = Some (clean_run a (i - 1))"
    and "\<forall>j'<i. clean_run a j' \<le> bs" and "d + bs \<le> i"
  shows "\<exists>d' s'. match_rows a a 0 (length a) [i..<length a] (j2len, (d, d, bs)) = (d', d', s')
     \<and> d' + s' \<le> length a"
  using assms
proof (induction "length a - i" arbitrary: i j2len d bs)
  case 0
  then show ?case by simp
next
  case (Suc m)
  then have i: "i < length a" by simp
  then have rows: "[i..<length a] = i # [Suc i..<length a]" by (rule upt_conv_Cons)
  let ?js = "b2j a (a ! i)"
  have "\<exists>new' d1 s1. match_row i 0 (length a) j2len ?js (Map.empty, (d, d, bs)) = (new', (d1, d1, s1))
     \<and> (\<forall>j'<Suc i. clean_run a j' \<le> s1)
     \<and> (0 < clean_run a i \<longrightarrow> new' i = Some (clean_run a i))
     \<and> (\<forall>j k. new' j = Some k \<longrightarrow> k \<le> clean_run a j \<and> k \<le> clean_run a i)
     \<and> d1 + s1 \<le> Suc i"
  proof (cases "popular a (a ! i)")
    case True
    then have "?js = []" by (simp add: b2j_def)
    moreover have "clean_run a i = 0" using True by (rule clean_run_popular)
    ultimately show ?thesis using Suc.prems(4,5) by (auto simp: less_Suc_eq)
  next
    case False
    then have js: "?js = filter (\<lambda>j. a ! j = a ! i) [0..<length a]" by (simp add: b2j_def)
    have s: "sorted ?js" unfolding js by (rule sorted_wrt_filter) simp
    have el: "\<forall>j\<in>set ?js. j < length a \<and> a ! j = a ! i" unfolding js by simp
    have mem: "i \<in> set ?js \<or> (clean_run a i \<le> bs \<and> Map.empty i = Some (clean_run a i))"
      unfolding js using i by simp
    have emp: "\<forall>j k. Map.empty j = Some k \<longrightarrow> k \<le> clean_run a j \<and> k \<le> clean_run a i"
      by simp
    have b: "d + bs \<le> Suc i" using Suc.prems(5) by simp
    from match_row_self [OF s el False Suc.prems(2,3) refl Suc.prems(4) mem emp b]
    show ?thesis by (auto simp: less_Suc_eq)
  qed
  then obtain new' d1 s1 where
    row: "match_row i 0 (length a) j2len ?js (Map.empty, (d, d, bs)) = (new', (d1, d1, s1))"
    and q1: "\<forall>j'<Suc i. clean_run a j' \<le> s1"
    and q2: "0 < clean_run a i \<longrightarrow> new' i = Some (clean_run a i)"
    and q3: "\<forall>j k. new' j = Some k \<longrightarrow> k \<le> clean_run a j \<and> k \<le> clean_run a i"
    and q4: "d1 + s1 \<le> Suc i"
    by (elim exE conjE)
  have m: "m = length a - Suc i" using Suc.hyps(2) by simp
  have le: "Suc i \<le> length a" using i by simp
  have J': "\<forall>j k. new' j = Some k \<longrightarrow> 0 < Suc i \<and> k \<le> clean_run a j \<and> k \<le> clean_run a (Suc i - 1)"
    using q3 by simp
  have J2': "0 < Suc i \<longrightarrow> 0 < clean_run a (Suc i - 1) \<longrightarrow> new' (Suc i - 1) = Some (clean_run a (Suc i - 1))"
    using q2 by simp
  from Suc.hyps(1) [OF m le J' J2' q1 q4]
  show ?case unfolding rows by (simp add: row)
qed

lemma extend_left_self: "extend_left a a 0 0 (d, d, s) = (0, 0, s + d)"
  by (induction d arbitrary: s) (simp_all add: extend_left.simps)

lemma extend_right_self:
  "s \<le> n \<Longrightarrow> extend_right a a n n (0, 0, s) = (0, 0, n)"
proof (induction "n - s" arbitrary: s)
  case 0
  then show ?case by (simp add: extend_right.simps)
next
  case (Suc m)
  then have "s < n" and "m = n - Suc s" and "Suc s \<le> n" by simp_all
  with Suc.hyps(1) [of "Suc s"] show ?case
    by (subst extend_right.simps) simp
qed

lemma find_longest_match_self:
  "find_longest_match a a 0 (length a) 0 (length a) = (0, 0, length a)"
proof -
  have "\<exists>d' s'. match_rows a a 0 (length a) [0..<length a] (Map.empty, (0, 0, 0)) = (d', d', s')
     \<and> d' + s' \<le> length a"
    by (rule match_rows_self) simp_all
  then obtain d s where
    m: "match_rows a a 0 (length a) [0..<length a] (Map.empty, (0, 0, 0)) = (d, d, s)"
    and le: "d + s \<le> length a" by blast
  from le have "s + d \<le> length a" by simp
  then show ?thesis
    unfolding find_longest_match_def m extend_left_self by (rule extend_right_self)
qed

lemma matching_loop_self:
  "matching_loop a a [(0, length a, 0, length a)] []
     = Some (if length a \<noteq> 0 then [(0, 0, length a)] else [])"
  by (subst matching_loop.simps)
    (simp add: find_longest_match_self matching_loop.simps)

lemma get_matching_blocks_self:
  "get_matching_blocks a a
     = Some ((if length a \<noteq> 0 then [(0, 0, length a)] else []) @ [(length a, length a, 0)])"
  by (simp add: get_matching_blocks_def matching_loop_self)

lemma ratio_self: "ratio a a = Some 1"
  by (simp add: ratio_def get_matching_blocks_self calculate_ratio_def)

lemma round2_100: "round2 100 = 100"
  by (simp add: round2_def round_half_even_def)

lemma calculate_similarity_self: "calculate_similarity isort black s s = Some 100"
  by (simp add: calculate_similarity_def Let_def ratio_self round2_100)

lemma blocks_tide_diet: "get_matching_blocks ''tide'' ''diet'' = Some [(0, 3, 1), (4, 4, 0)]"
  by code_simp

lemma blocks_diet_tide:
  "get_matching_blocks ''diet'' ''tide'' = Some [(0, 2, 1), (2, 3, 1), (4, 4, 0)]"
  by code_simp

lemma round2_examples: "round2 25 = 25" "round2 50 = 50"
  by (simp_all add: round2_def round_half_even_def)

lemma similarity_tide_diet:
  "calculate_similarity no_formatter no_formatter ''tide'' ''diet'' = Some 25"
  by (simp add: calculate_similarity_def format_python_code_def no_formatter_def ratio_def
      blocks_tide_diet calculate_ratio_def round2_examples)

lemma similarity_diet_tide:
  "calculate_similarity no_formatter no_formatter ''diet'' ''tide'' = Some 50"
  by (simp add: calculate_similarity_def format_python_code_def no_formatter_def ratio_def
      blocks_diet_tide calculate_ratio_def round2_examples)

text \<open>C5, as amended: for every text \<open>s\<close>, and whatever the two formatters do,
  \<open>calculate_similarity(s, s)\<close> returns 100.0. The score of a pair is not symmetric:
  \<open>SequenceMatcher.ratio\<close> depends on the order of its arguments, and without formatters
  \<open>tide\<close> against \<open>diet\<close> scores 25.0 while \<open>diet\<close> against \<open>tide\<close> scores 50.0.\<close>

theorem calculate_similarity_identical:
  "calculate_similarity isort black s s = Some 100
   \<and> calculate_similarity no_formatter no_formatter ''tide'' ''diet'' = Some 25
   \<and> calculate_similarity no_formatter no_formatter ''diet'' ''tide'' = Some 50"
  using calculate_similarity_self similarity_tide_diet similarity_diet_tide by blast

text \<open>C5 as stated does not hold: swapping \<open>tide\<close> and \<open>diet\<close> changes the score from
  25.0 to 50.0, far more than the rounding to two decimals allows.\<close>

theorem calculate_similarity_symmetry_counterexample:
  "calculate_similarity no_formatter no_formatter ''tide'' ''diet'' = Some 25
   \<and> calculate_similarity no_formatter no_formatter ''diet'' ''tide'' = Some 50
   \<and> \<not> \<bar>50 - 25\<bar> \<le> (1 / 100 :: real)"
  using similarity_tide_diet similarity_diet_tide by simp

end
